theory Spec2Isabelle
  imports Complex_Main
begin

section \<open>Squad leaderboard and weekly winner routes\<close>

text \<open>
  A shallow embedding of the two route handlers of the squads router that build the
  profit-and-loss leaderboard (\<^verbatim>\<open>GET /:id/leaderboard\<close>) and select the weekly
  winner (\<^verbatim>\<open>POST /:id/calculate-winner\<close>).

  Conventions of the embedding:
  \<^item> a JavaScript number is an exact rational (\<^typ>\<open>rat\<close>); the rounding error of
    IEEE doubles is not modelled;
  \<^item> the collaborators (database, market-data service, clock, chat socket) are
    parameters of a handler: their answers are fields of an environment record, and
    what the handler sends to them is returned as a log;
  \<^item> a JSON field that the handlers read as a number is a \<^typ>\<open>rat option\<close>, where
    \<open>None\<close> stands for an absent (\<^verbatim>\<open>undefined\<close> or \<^verbatim>\<open>null\<close>) field; field values
    of other JSON types are outside the model;
  \<^item> the process runs with a fixed offset from UTC (no daylight-saving changes).
\<close>

subsection \<open>Numbers and their decimal rendering\<close>

definition digit_char :: "nat \<Rightarrow> char" where
  "digit_char d =
     (if d = 0 then CHR ''0'' else if d = 1 then CHR ''1'' else if d = 2 then CHR ''2''
      else if d = 3 then CHR ''3'' else if d = 4 then CHR ''4'' else if d = 5 then CHR ''5''
      else if d = 6 then CHR ''6'' else if d = 7 then CHR ''7'' else if d = 8 then CHR ''8''
      else CHR ''9'')"

fun show_nat :: "nat \<Rightarrow> string" where
  "show_nat n = (if n < 10 then [digit_char n] else show_nat (n div 10) @ [digit_char (n mod 10)])"

declare show_nat.simps [simp del]

text \<open>\<^verbatim>\<open>String(n)\<close> for an integral number \<open>n\<close> (the decimal form, below \<open>10^21\<close>).\<close>

definition show_int :: "int \<Rightarrow> string" where
  "show_int i = (if i < 0 then CHR ''-'' # show_nat (nat (- i)) else show_nat (nat i))"

text \<open>
  \<^verbatim>\<open>Number.prototype.toFixed(2)\<close>: a negative \<open>x\<close> is rendered as \<open>-\<close> followed by the
  rendering of \<open>-x\<close>. For \<open>0 \<le> x < 10^21\<close> the integer \<open>n\<close> with \<open>n / 100 - x\<close> closest to
  zero is taken, the larger one on a tie, and printed with two digits after the point.
  For \<open>x \<ge> 10^21\<close> the result is \<^verbatim>\<open>String(x)\<close>, which is in exponent notation (for
  instance \<^verbatim>\<open>1e+21\<close>); its digits depend on the binary representation of the number,
  so that rendering is a parameter, \<open>numberToString\<close>.
\<close>

definition scaled2 :: "rat \<Rightarrow> nat" where
  "scaled2 x = nat \<lfloor>\<bar>x\<bar> * 100 + 1 / 2\<rfloor>"

definition toFixed2 :: "(rat \<Rightarrow> string) \<Rightarrow> rat \<Rightarrow> string" where
  "toFixed2 numberToString x =
     (if x < 0 then ''-'' else '''') @
     (if 10 ^ 21 \<le> \<bar>x\<bar> then numberToString \<bar>x\<bar>
      else show_nat (scaled2 x div 100) @ ''.'' @
           [digit_char (scaled2 x div 10 mod 10), digit_char (scaled2 x mod 10)])"

text \<open>
  \<^verbatim>\<open>parseFloat(x.toFixed(2))\<close>: the number that the rendering denotes; the exponent
  notation reads back as the number itself.
\<close>

definition round2 :: "rat \<Rightarrow> rat" where
  "round2 x =
     (if 10 ^ 21 \<le> \<bar>x\<bar> then x
      else if x < 0 then - (of_nat (scaled2 x) / 100) else of_nat (scaled2 x) / 100)"

subsection \<open>Profiles, leaderboard entries and market data\<close>

record user =
  evmAddress :: string
  username :: "string option"
  avatarUrl :: "string option"
  polymarketUserAddress :: "string option"

text \<open>
  The winner route builds entries without an avatar, hence the optional field.
\<close>

record entry =
  entry_evmAddress :: string
  entry_username :: string
  entry_avatarUrl :: "string option"
  totalLivePnl :: rat

record position =
  timestamp :: "rat option"
  realizedPnl :: "rat option"

datatype closed_json = PositionArray "position list" | NotAnArray

datatype value_json = ValueObject "rat option" | ValueNullish

text \<open>
  The outcome of one \<^verbatim>\<open>fetch\<close>: the promise rejects, or it resolves to a response
  with a status and a body; the body is \<open>None\<close> when \<^verbatim>\<open>.json()\<close> rejects.
\<close>

datatype 'a fetched = Rejected | Response nat "'a option"

definition ok :: "nat \<Rightarrow> bool" where
  "ok status = (200 \<le> status \<and> status \<le> 299)"

datatype request = ClosedPositionsRequest string "int option" | ValueRequest string

text \<open>\<^verbatim>\<open>s || d\<close> on an optional string and \<^verbatim>\<open>v || 0\<close> on an optional number.\<close>

definition str_or :: "string option \<Rightarrow> string \<Rightarrow> string" where
  "str_or s d = (case s of None \<Rightarrow> d | Some v \<Rightarrow> if v = [] then d else v)"

definition num_or0 :: "rat option \<Rightarrow> rat" where
  "num_or0 v = (case v of None \<Rightarrow> 0 | Some x \<Rightarrow> x)"

definition dicebear :: "string \<Rightarrow> string" where
  "dicebear seed = ''https://api.dicebear.com/9.x/pixel-art/svg?seed='' @ seed"

subsection \<open>Per-member aggregation of the leaderboard route\<close>

definition msPerDay :: int where
  "msPerDay = 1000 * 60 * 60 * 24"

text \<open>
  The window start in epoch seconds. \<^verbatim>\<open>setDate(getDate() - k)\<close> moves the local
  calendar date back by \<open>k\<close> days, which is \<open>k\<close> times 24 hours under a fixed offset.
\<close>

definition startTimestamp :: "int \<Rightarrow> string \<Rightarrow> int option" where
  "startTimestamp now timeframe =
     (if timeframe = ''weekly'' then Some ((now - 7 * msPerDay) div 1000)
      else if timeframe = ''daily'' then Some ((now - 1 * msPerDay) div 1000)
      else None)"

text \<open>Truthiness of \<^verbatim>\<open>startTimestamp\<close> (\<^verbatim>\<open>null\<close> and \<open>0\<close> are falsy).\<close>

definition cutoff_active :: "int option \<Rightarrow> bool" where
  "cutoff_active st = (case st of None \<Rightarrow> False | Some c \<Rightarrow> c \<noteq> 0)"

definition keep_position :: "int \<Rightarrow> position \<Rightarrow> bool" where
  "keep_position st pos =
     (case timestamp pos of
        None \<Rightarrow> False
      | Some t \<Rightarrow> if t = 0 then False else of_int st \<le> t)"

definition filteredClosedPositions :: "int option \<Rightarrow> closed_json \<Rightarrow> closed_json" where
  "filteredClosedPositions st closedPositions =
     (case closedPositions of
        PositionArray ps \<Rightarrow>
          (if cutoff_active st then PositionArray (filter (keep_position (the st)) ps)
           else closedPositions)
      | NotAnArray \<Rightarrow> closedPositions)"

definition sum_realized :: "closed_json \<Rightarrow> rat" where
  "sum_realized c =
     (case c of
        PositionArray ps \<Rightarrow> foldl (\<lambda>sum pos. sum + num_or0 (realizedPnl pos)) 0 ps
      | NotAnArray \<Rightarrow> 0)"

definition realizedPnl_of :: "int option \<Rightarrow> closed_json \<Rightarrow> rat" where
  "realizedPnl_of st closedPositions = sum_realized (filteredClosedPositions st closedPositions)"

text \<open>\<^verbatim>\<open>valueData?.value || 0\<close>.\<close>

definition value_or0 :: "value_json \<Rightarrow> rat" where
  "value_or0 valueData = (case valueData of ValueObject v \<Rightarrow> num_or0 v | ValueNullish \<Rightarrow> 0)"

definition openPositionsValue :: "string \<Rightarrow> value_json \<Rightarrow> rat" where
  "openPositionsValue timeframe valueData = (if timeframe = ''all'' then value_or0 valueData else 0)"

record market =
  fetchClosed :: "string \<Rightarrow> int option \<Rightarrow> closed_json fetched"
  fetchValue :: "string \<Rightarrow> value_json fetched"

definition leaderboard_entry :: "user \<Rightarrow> rat \<Rightarrow> entry" where
  "leaderboard_entry u amount =
     \<lparr> entry_evmAddress = evmAddress u,
       entry_username = str_or (username u) ''Anonymous'',
       entry_avatarUrl = Some (str_or (avatarUrl u) (dicebear (evmAddress u))),
       totalLivePnl = amount \<rparr>"

text \<open>
  The \<^verbatim>\<open>start\<close> parameter is appended to the closed-positions URL when the window
  start is truthy.
\<close>

definition start_param :: "int option \<Rightarrow> int option" where
  "start_param st = (if cutoff_active st then st else None)"

text \<open>
  The callback of \<^verbatim>\<open>users.map\<close> in the leaderboard route: the member's entry and the
  requests sent for that member. Both requests are issued before either answer is
  looked at; a rejection of either, or of \<^verbatim>\<open>.json()\<close>, lands in the \<^verbatim>\<open>catch\<close> branch.
\<close>

definition member_pnl :: "market \<Rightarrow> string \<Rightarrow> int option \<Rightarrow> user \<Rightarrow> entry \<times> request list" where
  "member_pnl m timeframe st u =
     (case polymarketUserAddress u of
        None \<Rightarrow> (leaderboard_entry u 0, [])
      | Some addr \<Rightarrow>
          if addr = [] then (leaderboard_entry u 0, [])
          else
            let reqs = [ClosedPositionsRequest addr (start_param st), ValueRequest addr] in
            (case (fetchClosed m addr (start_param st), fetchValue m addr) of
               (Response cstatus cbody, Response vstatus vbody) \<Rightarrow>
                 if \<not> ok cstatus \<or> \<not> ok vstatus then (leaderboard_entry u 0, reqs)
                 else
                   (case (cbody, vbody) of
                      (Some closedPositions, Some valueData) \<Rightarrow>
                        (leaderboard_entry u
                           (round2 (realizedPnl_of st closedPositions
                                    + openPositionsValue timeframe valueData)),
                         reqs)
                    | _ \<Rightarrow> (leaderboard_entry u 0, reqs))
             | _ \<Rightarrow> (leaderboard_entry u 0, reqs)))"

subsection \<open>Sorting\<close>

text \<open>
  \<^verbatim>\<open>Array.prototype.sort\<close> with a comparator is a stable sort; it is modelled by
  insertion sort, which places an element before the first one it does not sort after.
\<close>

fun insert_by :: "('a \<Rightarrow> 'a \<Rightarrow> rat) \<Rightarrow> 'a \<Rightarrow> 'a list \<Rightarrow> 'a list" where
  "insert_by cmp x [] = [x]"
| "insert_by cmp x (y # ys) = (if cmp x y \<le> 0 then x # y # ys else y # insert_by cmp x ys)"

definition sort_by :: "('a \<Rightarrow> 'a \<Rightarrow> rat) \<Rightarrow> 'a list \<Rightarrow> 'a list" where
  "sort_by cmp xs = foldr (insert_by cmp) xs []"

definition by_pnl_desc :: "entry \<Rightarrow> entry \<Rightarrow> rat" where
  "by_pnl_desc a b = totalLivePnl b - totalLivePnl a"

subsection \<open>The leaderboard cache\<close>

text \<open>
  Modelled from the spec: the cache store \<^verbatim>\<open>pnlCache\<close> is an instance of the
  \<^verbatim>\<open>node-cache\<close> package, created with \<^verbatim>\<open>stdTTL: 30\<close>; the package is not part
  of the sources of the repository. A write stores the value with the expiry instant \<open>now + 30 s\<close>
  (milliseconds), overwriting any entry of the key; a read returns the value unless the
  expiry instant lies before the time of the read, which is a miss.
\<close>

type_synonym cache = "string \<rightharpoonup> int \<times> entry list"

definition stdTTL :: int where
  "stdTTL = 30"

definition cache_get :: "cache \<Rightarrow> int \<Rightarrow> string \<Rightarrow> entry list option" where
  "cache_get c now k =
     (case c k of
        None \<Rightarrow> None
      | Some (t, v) \<Rightarrow> if t < now then None else Some v)"

definition no_entries :: cache where
  "no_entries = Map.empty"

definition cache_set :: "cache \<Rightarrow> int \<Rightarrow> string \<Rightarrow> entry list \<Rightarrow> cache" where
  "cache_set c now k v = c(k \<mapsto> (now + stdTTL * 1000, v))"

subsection \<open>The leaderboard route\<close>

text \<open>
  What the collaborators answer during one run of a handler:
  \<^item> \<open>membership\<close>: the caller's row in \<^verbatim>\<open>squad_members\<close> was found without error;
  \<^item> \<open>memberRows\<close>: the member ids of the squad, \<open>None\<close> on an error or null data;
  \<^item> \<open>usersOf\<close>: the profiles of a list of ids, \<open>None\<close> on an error or null data;
  \<^item> \<open>market\<close>: the market-data service;
  \<^item> the clock, read when the cache is looked up (\<open>time_lookup\<close>), when the window is
    computed (\<open>time_window\<close>), when the result is cached (\<open>time_store\<close>) and when the
    week is computed (\<open>time_week\<close>), and the offset \<open>tza\<close> of local time from UTC;
  \<^item> whether the lookup, the deletion and the insertion on \<^verbatim>\<open>squad_winners\<close> fail;
  \<^item> whether the announcement reaches the chat server; no handler reads this;
  \<^item> \<open>numberToString\<close>: the rendering \<^verbatim>\<open>String(x)\<close> of the runtime for numbers of
    magnitude \<open>10^21\<close> and more.
\<close>

record env =
  membership :: bool
  memberRows :: "string list option"
  usersOf :: "string list \<Rightarrow> user list option"
  market :: market
  time_lookup :: int
  time_window :: int
  time_store :: int
  time_week :: int
  tza :: int
  findWinnerFails :: bool
  deleteWinnerFails :: bool
  insertWinnerFails :: bool
  announcementDelivered :: bool
  numberToString :: "rat \<Rightarrow> string"

text \<open>
  A response: \<^verbatim>\<open>res.status(n).json({ message })\<close>, \<^verbatim>\<open>res.status(n).json({ error })\<close>,
  \<^verbatim>\<open>res.json({ leaderboard })\<close>, and the winner summary
  \<^verbatim>\<open>{ evmAddress, username, pnl, week }\<close>; the last two have status 200.
\<close>

datatype response =
    Message nat string
  | Error nat string
  | Leaderboard "entry list"
  | WinnerSummary string string rat int

fun status_of :: "response \<Rightarrow> nat" where
  "status_of (Message n _) = n"
| "status_of (Error n _) = n"
| "status_of (Leaderboard _) = 200"
| "status_of (WinnerSummary _ _ _ _) = 200"

record lb_outcome =
  lb_response :: response
  lb_cache :: cache
  lb_requests :: "request list"

definition cacheKey :: "int \<Rightarrow> string \<Rightarrow> string" where
  "cacheKey squadId timeframe = ''leaderboard:'' @ show_int squadId @ '':'' @ timeframe"

text \<open>
  The members' entries in the order of \<^verbatim>\<open>users\<close> (\<^verbatim>\<open>Promise.all\<close> keeps the order
  of its input), before sorting.
\<close>

definition member_results :: "env \<Rightarrow> string \<Rightarrow> user list \<Rightarrow> (entry \<times> request list) list" where
  "member_results e timeframe us =
     map (member_pnl (market e) timeframe (startTimestamp (time_window e) timeframe)) us"

text \<open>
  The handler of \<^verbatim>\<open>GET /:id/leaderboard\<close>. \<open>sid\<close> is \<^verbatim>\<open>parseInt(req.params.id)\<close>, with
  \<open>None\<close> for \<^verbatim>\<open>NaN\<close>; \<open>q\<close> is \<^verbatim>\<open>req.query.timeframe\<close>. The outer \<^verbatim>\<open>catch\<close> (status 500,
  "Internal server error") has no branch here: the database client reports errors in
  its result, and every per-member failure is caught in the callback.
\<close>

definition getLeaderboard :: "env \<Rightarrow> cache \<Rightarrow> int option \<Rightarrow> string option \<Rightarrow> lb_outcome" where
  "getLeaderboard e c sid q =
     (let timeframe = str_or q ''all'' in
      case sid of
        None \<Rightarrow>
          \<lparr> lb_response = Message 400 ''Invalid squad ID'', lb_cache = c, lb_requests = [] \<rparr>
      | Some squadId \<Rightarrow>
          if \<not> membership e then
            \<lparr> lb_response = Message 403 ''You are not a member of this squad'',
              lb_cache = c, lb_requests = [] \<rparr>
          else
            (case cache_get c (time_lookup e) (cacheKey squadId timeframe) of
               Some v \<Rightarrow> \<lparr> lb_response = Leaderboard v, lb_cache = c, lb_requests = [] \<rparr>
             | None \<Rightarrow>
                 (case memberRows e of
                    None \<Rightarrow> \<lparr> lb_response = Leaderboard [], lb_cache = c, lb_requests = [] \<rparr>
                  | Some rows \<Rightarrow>
                      if rows = [] then
                        \<lparr> lb_response = Leaderboard [], lb_cache = c, lb_requests = [] \<rparr>
                      else
                        (case usersOf e rows of
                           None \<Rightarrow>
                             \<lparr> lb_response = Message 500 ''Failed to fetch users'',
                               lb_cache = c, lb_requests = [] \<rparr>
                         | Some us \<Rightarrow>
                             let results = member_results e timeframe us;
                                 leaderboard = sort_by by_pnl_desc (map fst results)
                             in \<lparr> lb_response = Leaderboard leaderboard,
                                  lb_cache = cache_set c (time_store e)
                                               (cacheKey squadId timeframe) leaderboard,
                                  lb_requests = concat (map snd results) \<rparr>))))"

subsection \<open>Week of the year\<close>

text \<open>
  The date arithmetic of the language standard: \<open>DayFromYear y\<close> is the day number
  (days since the epoch) of 1 January of year \<open>y\<close>, and \<open>YearFromTime t\<close> is the largest
  year whose first day does not lie after \<open>t\<close>; it is found by counting up from a lower
  estimate.
\<close>

definition DayFromYear :: "int \<Rightarrow> int" where
  "DayFromYear y =
     365 * (y - 1970) + (y - 1969) div 4 - (y - 1901) div 100 + (y - 1601) div 400"

function year_search :: "int \<Rightarrow> int \<Rightarrow> int" where
  "year_search d y = (if DayFromYear (y + 1) \<le> d then year_search d (y + 1) else y)"
  by pat_completeness auto
termination
proof (relation "measure (\<lambda>(d, y). nat (d - DayFromYear y))")
  show "wf (measure (\<lambda>(d, y). nat (d - DayFromYear y)))"
    by simp
next
  fix d y :: int
  assume le: "DayFromYear (y + 1) \<le> d"
  have a: "(y - 1969) div 4 \<le> (y + 1 - 1969) div 4"
    by (rule zdiv_mono1) simp_all
  have "(y + 1 - 1901) div 100 \<le> (y - 1901 + 1 * 100) div 100"
    by (rule zdiv_mono1) simp_all
  also have "\<dots> = (y - 1901) div 100 + 1"
    by (simp only: div_mult_self1)
  finally have b: "(y + 1 - 1901) div 100 \<le> (y - 1901) div 100 + 1" .
  have c: "(y - 1601) div 400 \<le> (y + 1 - 1601) div 400"
    by (rule zdiv_mono1) simp_all
  have lin: "365 * (y - 1970) + p - q + r < 365 * (y + 1 - 1970) + p' - q' + r'"
    if "p \<le> p'" and "q' \<le> q + 1" and "r \<le> r'" for p p' q q' r r' :: int
    using that by simp
  have "DayFromYear y < DayFromYear (y + 1)"
    unfolding DayFromYear_def by (rule lin [OF a b c])
  with le show "((d, y + 1), (d, y)) \<in> measure (\<lambda>(d, y). nat (d - DayFromYear y))"
    by simp
qed

declare year_search.simps [simp del]

definition YearFromTime :: "int \<Rightarrow> int" where
  "YearFromTime t =
     (let d = t div msPerDay
      in year_search d (1970 + (if 0 \<le> d then d div 366 else d div 365)))"

definition oneWeek :: int where
  "oneWeek = 1000 * 60 * 60 * 24 * 7"

text \<open>
  \<^verbatim>\<open>new Date(now.getFullYear(), 0, 1)\<close> is local midnight of 1 January of the local
  year of \<open>now\<close>; \<open>offset\<close> is local time minus UTC, in milliseconds.
\<close>

definition weekNumber :: "int \<Rightarrow> int \<Rightarrow> int" where
  "weekNumber offset now =
     (let start = msPerDay * DayFromYear (YearFromTime (now + offset)) - offset;
          diff = now - start
      in diff div oneWeek + 1)"

text \<open>The local calendar day of an instant, and its zero-based day within the year.\<close>

definition localDay :: "int \<Rightarrow> int \<Rightarrow> int" where
  "localDay offset now = (now + offset) div msPerDay"

definition dayOfYear :: "int \<Rightarrow> int \<Rightarrow> int" where
  "dayOfYear offset now = localDay offset now - DayFromYear (YearFromTime (now + offset))"

subsection \<open>The winner route\<close>

record winner_row =
  row_squadId :: int
  winnerAddress :: string
  row_week :: int
  pnl :: rat

datatype db_op = FindWinner int int | DeleteWinner int int | InsertWinner winner_row

text \<open>\<^verbatim>\<open>socket.emit('bot:broadcast', { squadId, message })\<close>.\<close>

record announcement =
  ann_squadId :: int
  ann_message :: string

text \<open>
  Modelled from the spec: the winner store (the \<^verbatim>\<open>squad_winners\<close> table behind the
  database client, not part of the sources) with its three operations \<open>find\<close>, \<open>delete\<close>
  and \<open>insert\<close> on the rows of a (squad, week) pair. \<^verbatim>\<open>.single()\<close> yields a row only
  when exactly one row matches.
\<close>

definition matching :: "int \<Rightarrow> int \<Rightarrow> winner_row \<Rightarrow> bool" where
  "matching squadId wk r = (row_squadId r = squadId \<and> row_week r = wk)"

definition find_single :: "winner_row list \<Rightarrow> int \<Rightarrow> int \<Rightarrow> winner_row option" where
  "find_single tbl squadId wk =
     (case filter (matching squadId wk) tbl of [r] \<Rightarrow> Some r | _ \<Rightarrow> None)"

definition delete_matching :: "winner_row list \<Rightarrow> int \<Rightarrow> int \<Rightarrow> winner_row list" where
  "delete_matching tbl squadId wk = filter (\<lambda>r. \<not> matching squadId wk r) tbl"

definition winner_entry :: "user \<Rightarrow> rat \<Rightarrow> entry" where
  "winner_entry u amount =
     \<lparr> entry_evmAddress = evmAddress u,
       entry_username = str_or (username u) ''Anonymous'',
       entry_avatarUrl = None,
       totalLivePnl = amount \<rparr>"

text \<open>
  The callback of \<^verbatim>\<open>users.map\<close> in the winner route: the all-time aggregation, with
  no window and no \<^verbatim>\<open>start\<close> parameter.
\<close>

definition winner_member_pnl :: "market \<Rightarrow> user \<Rightarrow> entry \<times> request list" where
  "winner_member_pnl m u =
     (case polymarketUserAddress u of
        None \<Rightarrow> (winner_entry u 0, [])
      | Some addr \<Rightarrow>
          if addr = [] then (winner_entry u 0, [])
          else
            let reqs = [ClosedPositionsRequest addr None, ValueRequest addr] in
            (case (fetchClosed m addr None, fetchValue m addr) of
               (Response cstatus cbody, Response vstatus vbody) \<Rightarrow>
                 if \<not> ok cstatus \<or> \<not> ok vstatus then (winner_entry u 0, reqs)
                 else
                   (case (cbody, vbody) of
                      (Some closedPositions, Some valueData) \<Rightarrow>
                        (winner_entry u
                           (round2 (sum_realized closedPositions + value_or0 valueData)),
                         reqs)
                    | _ \<Rightarrow> (winner_entry u 0, reqs))
             | _ \<Rightarrow> (winner_entry u 0, reqs)))"

definition winnerKey :: "int \<Rightarrow> string" where
  "winnerKey squadId = ''leaderboard:'' @ show_int squadId"

text \<open>
  The leaderboard of the winner route when the cache has no entry: an early response, or
  the sorted entries with the requests sent.
\<close>

definition fresh_leaderboard :: "env \<Rightarrow> response + entry list \<times> request list" where
  "fresh_leaderboard e =
     (case memberRows e of
        None \<Rightarrow> Inl (Message 400 ''No members in squad'')
      | Some rows \<Rightarrow>
          if rows = [] then Inl (Message 400 ''No members in squad'')
          else
            (case usersOf e rows of
               None \<Rightarrow> Inl (Message 500 ''Failed to fetch users'')
             | Some us \<Rightarrow>
                 let results = map (winner_member_pnl (market e)) us
                 in Inr (sort_by by_pnl_desc (map fst results), concat (map snd results))))"

definition winner_leaderboard ::
  "env \<Rightarrow> cache \<Rightarrow> int \<Rightarrow> response + entry list \<times> request list" where
  "winner_leaderboard e c squadId =
     (case cache_get c (time_lookup e) (winnerKey squadId) of
        Some leaderboard \<Rightarrow> Inr (leaderboard, [])
      | None \<Rightarrow> fresh_leaderboard e)"

text \<open>
  The two pictographs of the announcement, as the bytes that the source file holds.
\<close>

definition trophy :: string where
  "trophy = [CHR 0xEF, CHR 0xA3, CHR 0xBF, CHR 0xC3, CHR 0xBC, CHR 0xC3, CHR 0xA8, CHR 0xC3, CHR 0x9C]"

definition party :: string where
  "party = [CHR 0xEF, CHR 0xA3, CHR 0xBF, CHR 0xC3, CHR 0xBC, CHR 0xC3, CHR 0xA9, CHR 0xC3, CHR 0xA2]"

definition pnlDisplay :: "(rat \<Rightarrow> string) \<Rightarrow> rat \<Rightarrow> string" where
  "pnlDisplay render p =
     (if 0 \<le> p then ''+$'' @ toFixed2 render p else ''-$'' @ toFixed2 render \<bar>p\<bar>)"

definition winnerMessage :: "(rat \<Rightarrow> string) \<Rightarrow> int \<Rightarrow> string \<Rightarrow> rat \<Rightarrow> string" where
  "winnerMessage render wk name p =
     trophy @ '' Week '' @ show_int wk @ '' MVP: '' @ name @ '' with '' @ pnlDisplay render p
     @ '' PnL! Congratulations! '' @ party"

record cw_outcome =
  cw_response :: response
  cw_winners :: "winner_row list"
  cw_requests :: "request list"
  cw_db_ops :: "db_op list"
  cw_emitted :: "announcement list"

definition early :: "response \<Rightarrow> winner_row list \<Rightarrow> request list \<Rightarrow> cw_outcome" where
  "early r tbl reqs =
     \<lparr> cw_response = r, cw_winners = tbl, cw_requests = reqs, cw_db_ops = [], cw_emitted = [] \<rparr>"

text \<open>
  The second half of the handler of \<^verbatim>\<open>POST /:id/calculate-winner\<close>, from the week
  number on: the stored winner of the week is looked up and, when found, deleted; the
  new row is inserted; the announcement is emitted and the summary returned. The
  results of the lookup and of the deletion are not inspected for errors: a failed
  lookup reads as "no stored winner", a failed deletion leaves the table as it is.
\<close>

definition persist_and_announce ::
  "env \<Rightarrow> winner_row list \<Rightarrow> int \<Rightarrow> entry \<Rightarrow> request list \<Rightarrow> cw_outcome" where
  "persist_and_announce e tbl squadId winner reqs =
     (let wk = weekNumber (tza e) (time_week e);
          existingWinner = (if findWinnerFails e then None else find_single tbl squadId wk);
          tbl1 =
            (if existingWinner \<noteq> None \<and> \<not> deleteWinnerFails e
             then delete_matching tbl squadId wk else tbl);
          row = \<lparr> row_squadId = squadId,
                  winnerAddress = entry_evmAddress winner,
                  row_week = wk,
                  pnl = totalLivePnl winner \<rparr>;
          ops = FindWinner squadId wk
                # (if existingWinner \<noteq> None then [DeleteWinner squadId wk] else [])
                @ [InsertWinner row]
      in
        if insertWinnerFails e then
          \<lparr> cw_response = Error 500 ''Failed to save winner'',
            cw_winners = tbl1, cw_requests = reqs, cw_db_ops = ops, cw_emitted = [] \<rparr>
        else
          \<lparr> cw_response =
              WinnerSummary (entry_evmAddress winner) (entry_username winner)
                (totalLivePnl winner) wk,
            cw_winners = tbl1 @ [row], cw_requests = reqs, cw_db_ops = ops,
            cw_emitted =
              [\<lparr> ann_squadId = squadId,
                 ann_message =
                   winnerMessage (numberToString e) wk (entry_username winner)
                     (totalLivePnl winner) \<rparr>] \<rparr>)"

text \<open>
  The handler of \<^verbatim>\<open>POST /:id/calculate-winner\<close>, on the cache \<open>c\<close> and the table \<open>tbl\<close>
  of stored winners; \<open>sid\<close> is \<^verbatim>\<open>parseInt(req.params.id)\<close>, with \<open>None\<close> for \<^verbatim>\<open>NaN\<close>.
\<close>

definition calculateWinner ::
  "env \<Rightarrow> cache \<Rightarrow> winner_row list \<Rightarrow> int option \<Rightarrow> cw_outcome" where
  "calculateWinner e c tbl sid =
     (case sid of
        None \<Rightarrow> early (Message 400 ''Invalid squad ID'') tbl []
      | Some squadId \<Rightarrow>
          if \<not> membership e then
            early (Message 403 ''You are not a member of this squad'') tbl []
          else
            (case winner_leaderboard e c squadId of
               Inl r \<Rightarrow> early r tbl []
             | Inr (leaderboard, reqs) \<Rightarrow>
                 (case leaderboard of
                    [] \<Rightarrow> early (Message 400 ''No leaderboard data available'') tbl reqs
                  | winner # _ \<Rightarrow> persist_and_announce e tbl squadId winner reqs)))"

subsection \<open>The server as a sequence of calls\<close>

text \<open>
  The state that outlives a call: the process-wide cache and the table of winners. Calls
  run one after another, each with its own answers of the collaborators.
\<close>

record server =
  pnlCache :: cache
  squad_winners :: "winner_row list"

datatype call =
    GetLeaderboard env "int option" "string option"
  | CalculateWinner env "int option"

fun step :: "server \<Rightarrow> call \<Rightarrow> server" where
  "step s (GetLeaderboard e sid q) = s\<lparr> pnlCache := lb_cache (getLeaderboard e (pnlCache s) sid q) \<rparr>"
| "step s (CalculateWinner e sid) =
     s\<lparr> squad_winners := cw_winners (calculateWinner e (pnlCache s) (squad_winners s) sid) \<rparr>"

definition run :: "server \<Rightarrow> call list \<Rightarrow> server" where
  "run s calls = foldl step s calls"

subsection \<open>Notions used in the statements\<close>

text \<open>The member and profile lookups succeed and yield the profiles \<open>us\<close>.\<close>

definition members_loaded :: "env \<Rightarrow> user list \<Rightarrow> bool" where
  "members_loaded e us =
     (case memberRows e of None \<Rightarrow> False | Some rows \<Rightarrow> rows \<noteq> [] \<and> usersOf e rows = Some us)"

text \<open>
  A run of the leaderboard route that computes: the caller is a member, the cache has
  no live entry for the key, and the lookups yield the profiles \<open>us\<close>.
\<close>

definition fresh_run :: "env \<Rightarrow> cache \<Rightarrow> int \<Rightarrow> string \<Rightarrow> user list \<Rightarrow> bool" where
  "fresh_run e c squadId timeframe us =
     (membership e \<and> cache_get c (time_lookup e) (cacheKey squadId timeframe) = None
      \<and> members_loaded e us)"


definition fetch_failed :: "'a fetched \<Rightarrow> bool" where
  "fetch_failed r = (case r of Rejected \<Rightarrow> True | Response status b \<Rightarrow> \<not> ok status)"

definition no_identity :: "user \<Rightarrow> bool" where
  "no_identity u = (case polymarketUserAddress u of None \<Rightarrow> True | Some addr \<Rightarrow> addr = [])"

definition member_failed :: "market \<Rightarrow> int option \<Rightarrow> user \<Rightarrow> bool" where
  "member_failed m st u =
     (case polymarketUserAddress u of
        None \<Rightarrow> True
      | Some addr \<Rightarrow>
          addr = [] \<or> fetch_failed (fetchClosed m addr (start_param st))
          \<or> fetch_failed (fetchValue m addr))"

text \<open>At most one stored winner per (squad, week) pair.\<close>

definition one_per_week :: "winner_row list \<Rightarrow> bool" where
  "one_per_week tbl = distinct (map (\<lambda>r. (row_squadId r, row_week r)) tbl)"

text \<open>A call during which the lookup and the deletion of stored winners do not fail.\<close>

fun reliable_store :: "call \<Rightarrow> bool" where
  "reliable_store (GetLeaderboard e sid q) = True"
| "reliable_store (CalculateWinner e sid) = (\<not> findWinnerFails e \<and> \<not> deleteWinnerFails e)"




text \<open>The string ends with a point and two decimal digits.\<close>

definition two_places :: "string \<Rightarrow> bool" where
  "two_places s =
     (case rev s of
        d2 # d1 # p # _ \<Rightarrow>
          p = CHR ''.'' \<and> d1 \<in> set ''0123456789'' \<and> d2 \<in> set ''0123456789''
      | _ \<Rightarrow> False)"

text \<open>A call that is not a leaderboard query for the given squad and timeframe.\<close>

fun other_pair :: "int \<Rightarrow> string \<Rightarrow> call \<Rightarrow> bool" where
  "other_pair squadId timeframe (GetLeaderboard e sid q) =
     (sid \<noteq> Some squadId \<or> str_or q ''all'' \<noteq> timeframe)"
| "other_pair squadId timeframe (CalculateWinner e sid) = True"

definition pnl_descending :: "entry list \<Rightarrow> bool" where
  "pnl_descending xs = sorted_wrt (\<lambda>a b. totalLivePnl b \<le> totalLivePnl a) xs"

text \<open>The entries of a given total, in their order in the list.\<close>

definition with_total :: "rat \<Rightarrow> entry list \<Rightarrow> entry list" where
  "with_total k xs = filter (\<lambda>x. totalLivePnl x = k) xs"

subsection \<open>A squad of three\<close>

text \<open>
  The scenario of the specification: a member without a trading identity, a member
  with realized 120.50 and an open value of 30.00, and a member whose fetches fail.
\<close>

definition alice :: user where
  "alice = \<lparr> evmAddress = ''0xA11CE'', username = Some ''alice'', avatarUrl = None,
             polymarketUserAddress = None \<rparr>"

definition bob :: user where
  "bob = \<lparr> evmAddress = ''0xB0B'', username = Some ''bob'', avatarUrl = None,
           polymarketUserAddress = Some ''pm-bob'' \<rparr>"

definition carol :: user where
  "carol = \<lparr> evmAddress = ''0xCA201'', username = None, avatarUrl = None,
             polymarketUserAddress = Some ''pm-carol'' \<rparr>"

definition bob_closed :: closed_json where
  "bob_closed =
     PositionArray
       [\<lparr> timestamp = Some 1762000000, realizedPnl = Some 100 \<rparr>,
        \<lparr> timestamp = Some 1700000000, realizedPnl = Some (41 / 2) \<rparr>]"

definition demo_market :: market where
  "demo_market =
     \<lparr> fetchClosed = (\<lambda>addr st. if addr = ''pm-bob'' then Response 200 (Some bob_closed)
                                 else Response 500 None),
       fetchValue = (\<lambda>addr. if addr = ''pm-bob'' then Response 200 (Some (ValueObject (Some 30)))
                             else Rejected) \<rparr>"

text \<open>
  The clock reads 3 November 2025, 00:00 UTC, and a little later. The only number of
  magnitude \<open>10^21\<close> or more in the scenarios is \<open>10^21\<close> itself, which the runtime
  renders as \<^verbatim>\<open>1e+21\<close>.
\<close>

definition toString_1e21 :: "rat \<Rightarrow> string" where
  "toString_1e21 x = ''1e+21''"

definition demo_env :: env where
  "demo_env =
     \<lparr> membership = True,
       memberRows = Some [''0xA11CE'', ''0xB0B'', ''0xCA201''],
       usersOf = (\<lambda>ids. Some [alice, bob, carol]),
       market = demo_market,
       time_lookup = 1762128000000,
       time_window = 1762128000100,
       time_store = 1762128000900,
       time_week = 1762128001000,
       tza = 0,
       findWinnerFails = False,
       deleteWinnerFails = False,
       insertWinnerFails = False,
       announcementDelivered = True,
       numberToString = toString_1e21 \<rparr>"

text \<open>A cache whose only entry, for squad 7 and \<open>all\<close>, was written 40 seconds earlier.\<close>

definition stale_cache :: cache where
  "stale_cache =
     cache_set no_entries 1762127960000 (cacheKey 7 ''all'') [leaderboard_entry alice 0]"

text \<open>The same squad when bob's closed positions sum to \<open>10^21\<close>.\<close>

definition whale_market :: market where
  "whale_market =
     \<lparr> fetchClosed =
         (\<lambda>addr st. if addr = ''pm-bob''
                    then Response 200
                           (Some (PositionArray
                              [\<lparr> timestamp = Some 1762000000, realizedPnl = Some (10 ^ 21) \<rparr>]))
                    else Response 500 None),
       fetchValue = (\<lambda>addr. if addr = ''pm-bob'' then Response 200 (Some (ValueObject None))
                             else Rejected) \<rparr>"

definition whale_env :: env where
  "whale_env = demo_env\<lparr> market := whale_market \<rparr>"

section \<open>Properties\<close>

subsection \<open>Sorting and per-member results\<close>

lemma set_insert_by: "set (insert_by cmp x xs) = insert x (set xs)"
  by (induction xs) auto

lemma set_sort_by: "set (sort_by cmp xs) = set xs"
  unfolding sort_by_def by (induction xs) (auto simp: set_insert_by)

lemma length_insert_by: "length (insert_by cmp x xs) = Suc (length xs)"
  by (induction xs) auto

lemma length_sort_by: "length (sort_by cmp xs) = length xs"
  unfolding sort_by_def by (induction xs) (auto simp: length_insert_by)

lemma descending_insert_by:
  "pnl_descending ys \<Longrightarrow> pnl_descending (insert_by by_pnl_desc x ys)"
  unfolding pnl_descending_def
  by (induction ys) (auto simp: set_insert_by by_pnl_desc_def)

lemma descending_sort_by: "pnl_descending (sort_by by_pnl_desc xs)"
proof (induction xs)
  case Nil
  show ?case by (simp add: sort_by_def pnl_descending_def)
next
  case (Cons x xs)
  then show ?case using descending_insert_by [of "sort_by by_pnl_desc xs" x]
    by (simp add: sort_by_def)
qed

lemma with_total_insert_by:
  "with_total k (insert_by by_pnl_desc x ys) =
   (if totalLivePnl x = k then x # with_total k ys else with_total k ys)"
  unfolding with_total_def by (induction ys) (auto simp: by_pnl_desc_def)

lemma with_total_sort_by: "with_total k (sort_by by_pnl_desc xs) = with_total k xs"
proof (induction xs)
  case Nil
  show ?case by (simp add: sort_by_def)
next
  case (Cons x xs)
  have "with_total k (sort_by by_pnl_desc (x # xs)) =
        with_total k (insert_by by_pnl_desc x (sort_by by_pnl_desc xs))"
    by (simp add: sort_by_def)
  also have "\<dots> = with_total k (x # xs)"
    using Cons.IH by (simp add: with_total_insert_by) (simp add: with_total_def)
  finally show ?case .
qed

lemma getLeaderboard_fresh:
  assumes "fresh_run e c squadId (str_or q ''all'') us"
  shows "getLeaderboard e c (Some squadId) q =
     \<lparr> lb_response = Leaderboard (sort_by by_pnl_desc (map fst (member_results e (str_or q ''all'') us))),
       lb_cache = cache_set c (time_store e) (cacheKey squadId (str_or q ''all''))
                    (sort_by by_pnl_desc (map fst (member_results e (str_or q ''all'') us))),
       lb_requests = concat (map snd (member_results e (str_or q ''all'') us)) \<rparr>"
  using assms
  by (auto simp: fresh_run_def members_loaded_def getLeaderboard_def Let_def split: option.splits)

lemma fresh_leaderboard_loaded:
  assumes "members_loaded e us"
  shows "fresh_leaderboard e =
     Inr (sort_by by_pnl_desc (map (\<lambda>u. fst (winner_member_pnl (market e) u)) us),
          concat (map (\<lambda>u. snd (winner_member_pnl (market e) u)) us))"
  using assms
  by (auto simp: members_loaded_def fresh_leaderboard_def Let_def comp_def split: option.splits)


lemma member_pnl_failed:
  assumes "member_failed m st u"
  shows "fst (member_pnl m timeframe st u) = leaderboard_entry u 0"
  using assms
  by (auto simp: member_pnl_def member_failed_def fetch_failed_def Let_def split: fetched.splits option.splits if_splits)

lemma member_pnl_no_identity:
  assumes "no_identity u"
  shows "member_pnl m timeframe st u = (leaderboard_entry u 0, [])"
  using assms
  by (auto simp: member_pnl_def no_identity_def split: option.splits)

lemma foldl_sum: "foldl (\<lambda>sum pos. sum + f pos) a ps = a + sum_list (map f ps)"
  by (induction ps arbitrary: a) (auto simp: algebra_simps)

lemma realized_windowed:
  "c \<noteq> 0 \<Longrightarrow> realizedPnl_of (Some c) (PositionArray ps) =
     sum_list (map (\<lambda>p. num_or0 (realizedPnl p)) (filter (keep_position c) ps))"
  by (simp add: realizedPnl_of_def filteredClosedPositions_def cutoff_active_def sum_realized_def foldl_sum)

lemma realized_all:
  "realizedPnl_of None (PositionArray ps) = sum_list (map (\<lambda>p. num_or0 (realizedPnl p)) ps)"
  by (simp add: realizedPnl_of_def filteredClosedPositions_def cutoff_active_def sum_realized_def foldl_sum)

lemma floor_numeral_div: "\<lfloor>(numeral a :: rat) / numeral b\<rfloor> = numeral a div numeral b"
  by (metis floor_divide_of_int_eq of_int_numeral)

subsection \<open>Rounding to two decimals\<close>














subsection \<open>Decimal rendering and cache keys\<close>

lemma digit_char_not_colon: "digit_char d \<noteq> CHR '':''"
  by (simp add: digit_char_def)

lemma show_nat_no_colon: "CHR '':'' \<notin> set (show_nat n)"
proof (induction n rule: show_nat.induct)
  case (1 n)
  show ?case
  proof (cases "n < 10")
    case True
    then show ?thesis
      using digit_char_not_colon [of n] by (simp add: show_nat.simps [of n])
  next
    case False
    then show ?thesis
      using "1.IH" digit_char_not_colon [of "n mod 10"] by (simp add: show_nat.simps [of n])
  qed
qed

lemma show_int_no_colon: "CHR '':'' \<notin> set (show_int i)"
  by (simp add: show_int_def show_nat_no_colon)

lemma digit_char_inject:
  "d < 10 \<Longrightarrow> d' < 10 \<Longrightarrow> digit_char d = digit_char d' \<Longrightarrow> d = d'"
  unfolding digit_char_def by (simp split: if_splits) arith

lemma show_nat_nonempty: "show_nat n \<noteq> []"
  by (subst show_nat.simps) simp

lemma digit_char_not_minus: "digit_char d \<noteq> CHR ''-''"
  by (simp add: digit_char_def)

lemma show_nat_no_minus: "CHR ''-'' \<notin> set (show_nat n)"
proof (induction n rule: show_nat.induct)
  case (1 n)
  show ?case
  proof (cases "n < 10")
    case True
    then show ?thesis
      using digit_char_not_minus [of n] by (simp add: show_nat.simps [of n])
  next
    case False
    then show ?thesis
      using "1.IH" digit_char_not_minus [of "n mod 10"] by (simp add: show_nat.simps [of n])
  qed
qed

lemma show_nat_inject: "show_nat n = show_nat m \<Longrightarrow> n = m"
proof (induction n arbitrary: m rule: show_nat.induct)
  case (1 n)
  show ?case
  proof (cases "n < 10")
    case small: True
    show ?thesis
    proof (cases "m < 10")
      case True
      with small "1.prems" show ?thesis
        by (simp add: show_nat.simps [of n] show_nat.simps [of m] digit_char_inject)
    next
      case False
      with small "1.prems" show_nat_nonempty [of "m div 10"] show ?thesis
        by (simp add: show_nat.simps [of n] show_nat.simps [of m])
    qed
  next
    case large: False
    show ?thesis
    proof (cases "m < 10")
      case True
      with large "1.prems" show_nat_nonempty [of "n div 10"] show ?thesis
        by (simp add: show_nat.simps [of n] show_nat.simps [of m])
    next
      case False
      with large "1.prems" have eq: "show_nat (n div 10) = show_nat (m div 10)"
        and last: "digit_char (n mod 10) = digit_char (m mod 10)"
        by (simp_all add: show_nat.simps [of n] show_nat.simps [of m])
      have "n div 10 = m div 10"
        using "1.IH" [OF large eq] .
      moreover have "n mod 10 = m mod 10"
        using last by (intro digit_char_inject) simp_all
      ultimately show ?thesis
        by (metis div_mult_mod_eq)
    qed
  qed
qed

lemma show_int_inject: "show_int i = show_int j \<Longrightarrow> i = j"
proof -
  assume eq: "show_int i = show_int j"
  have hd: "\<And>n. hd (show_nat n) \<noteq> CHR ''-''"
    using show_nat_no_minus show_nat_nonempty by (metis hd_in_set)
  show ?thesis
  proof (cases "i < 0"; cases "j < 0")
    assume "i < 0" "j < 0"
    with eq have "nat (- i) = nat (- j)"
      by (simp add: show_int_def show_nat_inject)
    with \<open>i < 0\<close> \<open>j < 0\<close> show ?thesis by simp
  next
    assume "i < 0" "\<not> j < 0"
    with eq hd [of "nat j"] show ?thesis
      by (auto simp: show_int_def dest: arg_cong [where f = hd])
  next
    assume "\<not> i < 0" "j < 0"
    with eq hd [of "nat i"] show ?thesis
      by (auto simp: show_int_def dest: arg_cong [where f = hd])
  next
    assume "\<not> i < 0" "\<not> j < 0"
    with eq have "nat i = nat j"
      by (simp add: show_int_def show_nat_inject)
    with \<open>\<not> i < 0\<close> \<open>\<not> j < 0\<close> show ?thesis by simp
  qed
qed

lemma split_at_separator:
  "c \<notin> set xs \<Longrightarrow> c \<notin> set xs' \<Longrightarrow> xs @ c # ys = xs' @ c # ys' \<Longrightarrow> xs = xs' \<and> ys = ys'"
proof (induction xs arbitrary: xs')
  case Nil
  then show ?case by (cases xs') auto
next
  case (Cons x xs)
  then show ?case by (cases xs') auto
qed

lemma keys_differ: "cacheKey squadId timeframe \<noteq> winnerKey squadId'"
proof
  assume "cacheKey squadId timeframe = winnerKey squadId'"
  then have "show_int squadId @ CHR '':'' # timeframe = show_int squadId'"
    by (simp add: cacheKey_def winnerKey_def)
  then have "CHR '':'' \<in> set (show_int squadId')"
    by (metis in_set_conv_decomp)
  then show False
    by (simp add: show_int_no_colon)
qed

lemma cacheKey_inject:
  "cacheKey squadId timeframe = cacheKey squadId' timeframe' \<Longrightarrow>
   squadId = squadId' \<and> timeframe = timeframe'"
proof -
  assume "cacheKey squadId timeframe = cacheKey squadId' timeframe'"
  then have "show_int squadId @ CHR '':'' # timeframe = show_int squadId' @ CHR '':'' # timeframe'"
    by (simp add: cacheKey_def)
  then have "show_int squadId = show_int squadId' \<and> timeframe = timeframe'"
    by (intro split_at_separator) (simp_all add: show_int_no_colon)
  then show ?thesis
    by (simp add: show_int_inject)
qed

lemma str_or_nonempty: "d \<noteq> [] \<Longrightarrow> str_or q d \<noteq> []"
  by (simp add: str_or_def split: option.splits)

lemma cache_get_set:
  "cache_get (cache_set c written k v) now k = (if written + 30 * 1000 < now then None else Some v)"
  by (simp add: cache_get_def cache_set_def stdTTL_def)

lemma cache_other_pair:
  "(squadId', timeframe') \<noteq> (squadId, timeframe) \<Longrightarrow>
   cache_get (cache_set c written (cacheKey squadId' timeframe') v) now (cacheKey squadId timeframe) =
   cache_get c now (cacheKey squadId timeframe)"
  using cacheKey_inject [of squadId timeframe squadId' timeframe']
  by (auto simp: cache_get_def cache_set_def)

lemma getLeaderboard_writes:
  "lb_cache (getLeaderboard e c sid q) = c \<or>
   (\<exists>squadId lb. sid = Some squadId \<and>
      lb_cache (getLeaderboard e c sid q) =
        cache_set c (time_store e) (cacheKey squadId (str_or q ''all'')) lb)"
  by (auto simp: getLeaderboard_def Let_def split: option.splits)

lemma getLeaderboard_keeps_winner_keys:
  assumes "\<forall>s. c (winnerKey s) = None"
  shows "\<forall>s. lb_cache (getLeaderboard e c sid q) (winnerKey s) = None"
  using getLeaderboard_writes [of e c sid q] assms
  by (auto simp: cache_set_def keys_differ keys_differ [symmetric])

lemma step_keeps_winner_keys:
  "\<forall>s. pnlCache st (winnerKey s) = None \<Longrightarrow> \<forall>s. pnlCache (step st call) (winnerKey s) = None"
  by (cases call) (simp_all add: getLeaderboard_keeps_winner_keys)

lemma run_keeps_winner_keys:
  "\<forall>s. pnlCache st (winnerKey s) = None \<Longrightarrow> \<forall>s. pnlCache (run st calls) (winnerKey s) = None"
  unfolding run_def
proof (induction calls arbitrary: st)
  case Nil
  then show ?case by simp
next
  case (Cons call calls)
  have "\<forall>s. pnlCache (step st call) (winnerKey s) = None"
    using Cons.prems by (rule step_keeps_winner_keys)
  then show ?case using Cons.IH by simp
qed

lemma step_other_pair:
  assumes "other_pair squadId timeframe call"
  shows "pnlCache (step st call) (cacheKey squadId timeframe) =
         pnlCache st (cacheKey squadId timeframe)"
proof (cases call)
  case (GetLeaderboard e sid q)
  from getLeaderboard_writes [of e "pnlCache st" sid q]
  show ?thesis
  proof
    assume "lb_cache (getLeaderboard e (pnlCache st) sid q) = pnlCache st"
    then show ?thesis by (simp add: GetLeaderboard)
  next
    assume "\<exists>written lb. sid = Some written \<and>
      lb_cache (getLeaderboard e (pnlCache st) sid q) =
        cache_set (pnlCache st) (time_store e) (cacheKey written (str_or q ''all'')) lb"
    then obtain written lb where sid: "sid = Some written"
      and upd: "lb_cache (getLeaderboard e (pnlCache st) sid q) =
        cache_set (pnlCache st) (time_store e) (cacheKey written (str_or q ''all'')) lb"
      by blast
    have "cacheKey written (str_or q ''all'') \<noteq> cacheKey squadId timeframe"
      using assms cacheKey_inject [of written "str_or q ''all''" squadId timeframe]
      by (auto simp: GetLeaderboard sid)
    then show ?thesis
      by (simp add: GetLeaderboard upd cache_set_def)
  qed
next
  case (CalculateWinner e sid)
  then show ?thesis by simp
qed

lemma run_other_pairs:
  "\<forall>call \<in> set calls. other_pair squadId timeframe call \<Longrightarrow>
   pnlCache (run st calls) (cacheKey squadId timeframe) = pnlCache st (cacheKey squadId timeframe)"
  unfolding run_def
proof (induction calls arbitrary: st)
  case Nil
  show ?case by simp
next
  case (Cons call calls)
  have "pnlCache (foldl step (step st call) calls) (cacheKey squadId timeframe) =
        pnlCache (step st call) (cacheKey squadId timeframe)"
    using Cons.prems by (intro Cons.IH) simp
  also have "\<dots> = pnlCache st (cacheKey squadId timeframe)"
    using Cons.prems by (intro step_other_pair) simp
  finally show ?case by simp
qed

lemma getLeaderboard_hit:
  assumes "membership e" and "cache_get c (time_lookup e) (cacheKey squadId (str_or q ''all'')) = Some v"
  shows "getLeaderboard e c (Some squadId) q =
     \<lparr> lb_response = Leaderboard v, lb_cache = c, lb_requests = [] \<rparr>"
  using assms by (simp add: getLeaderboard_def Let_def)

lemma getLeaderboard_no_members:
  assumes "membership e" and "cache_get c (time_lookup e) (cacheKey squadId (str_or q ''all'')) = None"
    and "memberRows e = None \<or> memberRows e = Some []"
  shows "getLeaderboard e c (Some squadId) q =
     \<lparr> lb_response = Leaderboard [], lb_cache = c, lb_requests = [] \<rparr>"
  using assms by (auto simp: getLeaderboard_def Let_def)

lemma getLeaderboard_no_users:
  assumes "membership e" and "cache_get c (time_lookup e) (cacheKey squadId (str_or q ''all'')) = None"
    and "memberRows e = Some rows" and "rows \<noteq> []" and "usersOf e rows = None"
  shows "getLeaderboard e c (Some squadId) q =
     \<lparr> lb_response = Message 500 ''Failed to fetch users'', lb_cache = c, lb_requests = [] \<rparr>"
  using assms by (simp add: getLeaderboard_def Let_def)

subsection \<open>The calendar\<close>

lemma div_step:
  fixes x n :: int
  assumes "0 < n"
  shows "x div n \<le> (x + 1) div n \<and> (x + 1) div n \<le> x div n + 1"
proof
  show "x div n \<le> (x + 1) div n"
    using assms by (intro zdiv_mono1) simp_all
  have "(x + 1) div n \<le> (x + 1 * n) div n"
    using assms by (intro zdiv_mono1) simp_all
  also have "\<dots> = x div n + 1"
    using assms by (simp only: div_mult_self1)
  finally show "(x + 1) div n \<le> x div n + 1" .
qed

text \<open>The leap days up to year \<open>2001 + m\<close>, counted from 2001.\<close>

lemma leap_step:
  fixes m :: int
  defines "L \<equiv> \<lambda>k::int. k div 4 - k div 4 div 25 + k div 4 div 25 div 4"
  shows "L m \<le> L (m + 1) \<and> L (m + 1) \<le> L m + 1"
proof -
  define a a' where "a = m div 4" and "a' = (m + 1) div 4"
  define b b' where "b = a div 25" and "b' = a' div 25"
  define c c' where "c = b div 4" and "c' = b' div 4"
  have A: "a \<le> a' \<and> a' \<le> a + 1"
    unfolding a_def a'_def by (rule div_step) simp
  have B: "b \<le> b' \<and> b' \<le> b + 1 \<and> (a' = a \<longrightarrow> b' = b)"
  proof (cases "a' = a")
    case True
    then show ?thesis by (simp add: b_def b'_def)
  next
    case False
    with A have "a' = a + 1" by simp
    then show ?thesis using div_step [of 25 a] by (simp add: b_def b'_def)
  qed
  have C: "c \<le> c' \<and> c' \<le> c + 1 \<and> (b' = b \<longrightarrow> c' = c)"
  proof (cases "b' = b")
    case True
    then show ?thesis by (simp add: c_def c'_def)
  next
    case False
    with B have "b' = b + 1" by simp
    then show ?thesis using div_step [of 4 b] by (simp add: c_def c'_def)
  qed
  have "a - b + c \<le> a' - b' + c' \<and> a' - b' + c' \<le> a - b + c + 1"
    using A B C by (cases "a' = a"; cases "b' = b") auto
  then show ?thesis
    by (simp add: L_def a_def a'_def b_def b'_def c_def c'_def)
qed

lemma DayFromYear_leap:
  "DayFromYear y = 365 * (y - 2001) + 11323
     + ((y - 2001) div 4 - (y - 2001) div 4 div 25 + (y - 2001) div 4 div 25 div 4)"
proof -
  have a: "(y - 1969) div 4 = (y - 2001) div 4 + 8"
    using div_mult_self1 [of 4 "y - 2001" 8] by simp
  have b: "(y - 1901) div 100 = (y - 2001) div 100 + 1"
    using div_mult_self1 [of 100 "y - 2001" 1] by simp
  have c: "(y - 1601) div 400 = (y - 2001) div 400 + 1"
    using div_mult_self1 [of 400 "y - 2001" 1] by simp
  have d: "(y - 2001) div 100 = (y - 2001) div 4 div 25"
    using zdiv_zmult2_eq [of 25 "y - 2001" 4] by simp
  have e: "(y - 2001) div 400 = (y - 2001) div 4 div 25 div 4"
    using zdiv_zmult2_eq [of 4 "(y - 2001) div 4" 25] zdiv_zmult2_eq [of 100 "y - 2001" 4] by simp
  show ?thesis
    unfolding DayFromYear_def a b c d e by simp
qed

lemma DayFromYear_step:
  "DayFromYear y + 365 \<le> DayFromYear (y + 1) \<and> DayFromYear (y + 1) \<le> DayFromYear y + 366"
proof -
  have "y + 1 - 2001 = y - 2001 + 1" by simp
  then show ?thesis
    using leap_step [of "y - 2001"] by (simp add: DayFromYear_leap)
qed

lemma year_search_bounds:
  "DayFromYear y \<le> d \<Longrightarrow>
   DayFromYear (year_search d y) \<le> d \<and> d < DayFromYear (year_search d y + 1)"
proof (induction d y rule: year_search.induct)
  case (1 d y)
  show ?case
  proof (cases "DayFromYear (y + 1) \<le> d")
    case True
    then show ?thesis using "1.IH" by (simp add: year_search.simps [of d y])
  next
    case False
    then show ?thesis using "1.prems" by (simp add: year_search.simps [of d y])
  qed
qed

lemma DayFromYear_1970: "DayFromYear 1970 = 0"
  by (simp add: DayFromYear_def)

lemma DayFromYear_after: "0 \<le> k \<Longrightarrow> DayFromYear (1970 + k) \<le> 366 * k"
proof (induction k rule: int_ge_induct)
  case base
  show ?case by (simp add: DayFromYear_1970)
next
  case (step i)
  have "DayFromYear (1970 + (i + 1)) = DayFromYear (1970 + i + 1)"
    by (simp add: add.assoc)
  then show ?case using step.IH DayFromYear_step [of "1970 + i"] by simp
qed

lemma DayFromYear_before: "k \<le> 0 \<Longrightarrow> DayFromYear (1970 + k) \<le> 365 * k"
proof (induction k rule: int_le_induct)
  case base
  show ?case by (simp add: DayFromYear_1970)
next
  case (step i)
  have "DayFromYear (1970 + (i - 1) + 1) = DayFromYear (1970 + i)"
    by simp
  then show ?case using step.IH DayFromYear_step [of "1970 + (i - 1)"] by simp
qed

lemma DayFromYear_estimate:
  "DayFromYear (1970 + (if 0 \<le> d then d div 366 else d div 365)) \<le> d"
proof (cases "0 \<le> d")
  case True
  then have "0 \<le> d div 366" by simp
  then have "DayFromYear (1970 + d div 366) \<le> 366 * (d div 366)"
    by (rule DayFromYear_after)
  also have "\<dots> \<le> d"
    using mult_div_mod_eq [of 366 d] pos_mod_sign [of 366 d] by simp
  finally show ?thesis using True by simp
next
  case False
  then have "d div 365 < 0" by (simp add: pos_imp_zdiv_neg_iff)
  then have "d div 365 \<le> 0" by simp
  then have "DayFromYear (1970 + d div 365) \<le> 365 * (d div 365)"
    by (rule DayFromYear_before)
  also have "\<dots> \<le> d"
    using mult_div_mod_eq [of 365 d] pos_mod_sign [of 365 d] by simp
  finally show ?thesis using False by simp
qed

lemma YearFromTime_bounds:
  "DayFromYear (YearFromTime t) \<le> t div msPerDay \<and> t div msPerDay < DayFromYear (YearFromTime t + 1)"
  unfolding YearFromTime_def Let_def
  by (rule year_search_bounds) (rule DayFromYear_estimate)

lemma week_by_day: "weekNumber offset now = dayOfYear offset now div 7 + 1"
proof -
  define D where "D = DayFromYear (YearFromTime (now + offset))"
  have "now - (msPerDay * D - offset) = now + offset + (- D) * msPerDay"
    by simp
  then have "(now - (msPerDay * D - offset)) div msPerDay = (now + offset) div msPerDay - D"
    by (simp add: msPerDay_def)
  moreover have "(now - (msPerDay * D - offset)) div oneWeek
      = (now - (msPerDay * D - offset)) div msPerDay div 7"
    using zdiv_zmult2_eq [of 7 "now - (msPerDay * D - offset)" msPerDay]
    by (simp add: oneWeek_def msPerDay_def)
  ultimately show ?thesis
    by (simp add: weekNumber_def dayOfYear_def localDay_def Let_def D_def)
qed

lemma week_same_day:
  "localDay offset t1 = localDay offset t2 \<Longrightarrow> weekNumber offset t1 = weekNumber offset t2"
  by (simp add: week_by_day dayOfYear_def localDay_def YearFromTime_def)

lemma dayOfYear_range: "0 \<le> dayOfYear offset now \<and> dayOfYear offset now \<le> 365"
  using YearFromTime_bounds [of "now + offset"] DayFromYear_step [of "YearFromTime (now + offset)"]
  by (simp add: dayOfYear_def localDay_def)

lemma week_range: "1 \<le> weekNumber offset now \<and> weekNumber offset now \<le> 53"
proof -
  have "0 \<le> dayOfYear offset now div 7"
    using dayOfYear_range [of offset now] by (simp add: pos_imp_zdiv_nonneg_iff)
  moreover have "dayOfYear offset now div 7 \<le> 365 div 7"
    using dayOfYear_range [of offset now] by (intro zdiv_mono1) simp_all
  ultimately show ?thesis
    by (simp add: week_by_day)
qed

subsection \<open>The winner store and the persistence step\<close>

lemma calculateWinner_cases:
  "(cw_winners (calculateWinner e c tbl sid) = tbl \<and>
    cw_db_ops (calculateWinner e c tbl sid) = [] \<and>
    cw_emitted (calculateWinner e c tbl sid) = [] \<and>
    (\<forall>a n p wk. cw_response (calculateWinner e c tbl sid) \<noteq> WinnerSummary a n p wk)) \<or>
   (\<exists>squadId winner rest reqs. sid = Some squadId \<and> membership e \<and>
      winner_leaderboard e c squadId = Inr (winner # rest, reqs) \<and>
      calculateWinner e c tbl sid = persist_and_announce e tbl squadId winner reqs)"
proof (cases sid)
  case None
  then show ?thesis by (simp add: calculateWinner_def early_def)
next
  case (Some squadId)
  show ?thesis
  proof (cases "membership e")
    case False
    with Some show ?thesis by (simp add: calculateWinner_def early_def)
  next
    case True
    show ?thesis
    proof (cases "winner_leaderboard e c squadId")
      case (Inl r)
      then have "\<forall>a n p wk. r \<noteq> WinnerSummary a n p wk"
        by (auto simp: winner_leaderboard_def fresh_leaderboard_def Let_def
            split: option.splits if_splits)
      with Some True Inl show ?thesis by (simp add: calculateWinner_def early_def)
    next
      case (Inr pr)
      obtain leaderboard reqs where pr: "pr = (leaderboard, reqs)" by (cases pr)
      show ?thesis
      proof (cases leaderboard)
        case Nil
        with Some True Inr pr show ?thesis by (simp add: calculateWinner_def early_def)
      next
        case (Cons winner rest)
        with Some True Inr pr show ?thesis by (simp add: calculateWinner_def)
      qed
    qed
  qed
qed

lemma calculateWinner_persist:
  assumes "membership e" and "winner_leaderboard e c squadId = Inr (winner # rest, reqs)"
  shows "calculateWinner e c tbl (Some squadId) = persist_and_announce e tbl squadId winner reqs"
  using assms by (simp add: calculateWinner_def)

lemma one_per_week_count:
  "one_per_week tbl \<Longrightarrow> length (filter (matching s w) tbl) \<le> 1"
proof (induction tbl)
  case Nil
  show ?case by simp
next
  case (Cons r tbl)
  then have IH: "length (filter (matching s w) tbl) \<le> 1"
    by (simp add: one_per_week_def)
  show ?case
  proof (cases "matching s w r")
    case False
    with IH show ?thesis by simp
  next
    case True
    have "(row_squadId r, row_week r) \<notin> set (map (\<lambda>r. (row_squadId r, row_week r)) tbl)"
      using Cons.prems by (simp add: one_per_week_def)
    then have "filter (matching s w) tbl = []"
      using True by (fastforce simp: matching_def filter_empty_conv image_iff)
    with True show ?thesis by simp
  qed
qed

lemma find_single_one_per_week:
  assumes "one_per_week tbl"
  shows "find_single tbl s w = None \<longleftrightarrow> filter (matching s w) tbl = []"
proof -
  have "length (filter (matching s w) tbl) \<le> 1"
    using assms by (rule one_per_week_count)
  then show ?thesis
    by (cases "filter (matching s w) tbl" rule: list.exhaust; cases "tl (filter (matching s w) tbl)")
       (auto simp: find_single_def)
qed

lemma one_per_week_delete: "one_per_week tbl \<Longrightarrow> one_per_week (delete_matching tbl s w)"
  by (simp add: one_per_week_def delete_matching_def distinct_map_filter)

lemma one_per_week_snoc:
  assumes "one_per_week tbl" and "filter (matching (row_squadId r) (row_week r)) tbl = []"
  shows "one_per_week (tbl @ [r])"
  using assms by (auto simp: one_per_week_def matching_def filter_empty_conv)

lemma filter_delete_matching [simp]: "filter (matching s w) (delete_matching tbl s w) = []"
  by (simp add: delete_matching_def filter_empty_conv)

lemma filter_not_delete_matching:
  "filter (\<lambda>r. \<not> matching s w r) (delete_matching tbl s w) = filter (\<lambda>r. \<not> matching s w r) tbl"
  by (simp add: delete_matching_def)

lemma persist_table:
  assumes "one_per_week tbl" and "\<not> findWinnerFails e" and "\<not> deleteWinnerFails e"
  shows "cw_winners (persist_and_announce e tbl squadId winner reqs) =
     (let wk = weekNumber (tza e) (time_week e) in
      delete_matching tbl squadId wk @
      (if insertWinnerFails e then []
       else [\<lparr> row_squadId = squadId, winnerAddress = entry_evmAddress winner,
               row_week = wk, pnl = totalLivePnl winner \<rparr>]))"
proof -
  let ?wk = "weekNumber (tza e) (time_week e)"
  have "find_single tbl squadId ?wk = None \<Longrightarrow> delete_matching tbl squadId ?wk = tbl"
    using find_single_one_per_week [OF assms(1), of squadId ?wk]
    by (simp add: delete_matching_def filter_empty_conv)
  then show ?thesis
    using assms(2,3) by (auto simp: persist_and_announce_def Let_def)
qed

lemma persist_one_per_week:
  assumes "one_per_week tbl" and "\<not> findWinnerFails e" and "\<not> deleteWinnerFails e"
  shows "one_per_week (cw_winners (persist_and_announce e tbl squadId winner reqs))"
  unfolding persist_table [OF assms] Let_def
  using one_per_week_delete [OF assms(1)]
  by (auto intro!: one_per_week_snoc)

lemma persist_success:
  "cw_response (persist_and_announce e tbl squadId winner reqs) = WinnerSummary a n p wk \<Longrightarrow>
   \<not> insertWinnerFails e \<and> a = entry_evmAddress winner \<and> n = entry_username winner \<and>
   p = totalLivePnl winner \<and> wk = weekNumber (tza e) (time_week e)"
  by (auto simp: persist_and_announce_def Let_def split: if_splits)

lemma persist_ops:
  assumes "one_per_week tbl" and "\<not> findWinnerFails e"
  shows "cw_db_ops (persist_and_announce e tbl squadId winner reqs) =
     (let wk = weekNumber (tza e) (time_week e) in
      FindWinner squadId wk
      # (if filter (matching squadId wk) tbl \<noteq> [] then [DeleteWinner squadId wk] else [])
      @ [InsertWinner \<lparr> row_squadId = squadId, winnerAddress = entry_evmAddress winner,
                        row_week = wk, pnl = totalLivePnl winner \<rparr>])"
  using assms(2) find_single_one_per_week [OF assms(1), of squadId "weekNumber (tza e) (time_week e)"]
  by (auto simp: persist_and_announce_def Let_def)

lemma calculateWinner_one_per_week:
  assumes "one_per_week tbl" and "\<not> findWinnerFails e" and "\<not> deleteWinnerFails e"
  shows "one_per_week (cw_winners (calculateWinner e c tbl sid))"
  using calculateWinner_cases [of e c tbl sid] persist_one_per_week [OF assms] assms(1)
  by auto

lemma step_one_per_week:
  "one_per_week (squad_winners s) \<Longrightarrow> reliable_store call \<Longrightarrow>
   one_per_week (squad_winners (step s call))"
  by (cases call) (simp_all add: calculateWinner_one_per_week)

lemma run_one_per_week:
  "one_per_week (squad_winners s) \<Longrightarrow> \<forall>call \<in> set calls. reliable_store call \<Longrightarrow>
   one_per_week (squad_winners (run s calls))"
  unfolding run_def
  by (induction calls arbitrary: s) (simp_all add: step_one_per_week)

lemma pnlDisplay_format:
  assumes "\<bar>p\<bar> < 10 ^ 21"
  shows "pnlDisplay render p =
     (if 0 \<le> p then CHR ''+'' else CHR ''-'') # CHR ''$''
     # show_nat (scaled2 p div 100)
     @ [CHR ''.'', digit_char (scaled2 p div 10 mod 10), digit_char (scaled2 p mod 10)]"
proof (cases "0 \<le> p")
  case True
  then have "\<bar>p\<bar> = p" by simp
  with assms True show ?thesis
    by (simp add: pnlDisplay_def toFixed2_def)
next
  case False
  then have a: "\<bar>p\<bar> = - p" by simp
  have "scaled2 (- p) = scaled2 p"
    by (simp add: scaled2_def)
  with assms False a show ?thesis
    by (simp add: pnlDisplay_def toFixed2_def)
qed

lemma pnlDisplay_large:
  assumes "10 ^ 21 \<le> \<bar>p\<bar>"
  shows "pnlDisplay render p = (if 0 \<le> p then CHR ''+'' else CHR ''-'') # CHR ''$'' # render \<bar>p\<bar>"
proof (cases "0 \<le> p")
  case True
  then have "\<bar>p\<bar> = p" by simp
  with assms True show ?thesis
    by (simp add: pnlDisplay_def toFixed2_def)
next
  case False
  then have "\<bar>p\<bar> = - p" by simp
  with assms False show ?thesis
    by (simp add: pnlDisplay_def toFixed2_def)
qed

lemma digit_char_decimal: "digit_char d \<in> set ''0123456789''"
  by (simp add: digit_char_def)

lemma pnlDisplay_two_places:
  assumes "\<bar>p\<bar> < 10 ^ 21"
  shows "two_places (pnlDisplay render p)"
  using digit_char_decimal [of "scaled2 p div 10 mod 10"] digit_char_decimal [of "scaled2 p mod 10"]
  by (simp add: pnlDisplay_format [OF assms] two_places_def del: set_simps)

lemma winner_leaderboard_delivery:
  "winner_leaderboard (e\<lparr>announcementDelivered := b\<rparr>) c squadId = winner_leaderboard e c squadId"
  by (simp add: winner_leaderboard_def fresh_leaderboard_def split: option.splits)

lemma persist_delivery:
  "persist_and_announce (e\<lparr>announcementDelivered := b\<rparr>) tbl squadId winner reqs =
   persist_and_announce e tbl squadId winner reqs"
  by (simp add: persist_and_announce_def Let_def)

lemma delivery_irrelevant:
  "calculateWinner (e\<lparr>announcementDelivered := b\<rparr>) c tbl sid = calculateWinner e c tbl sid"
  by (simp add: calculateWinner_def winner_leaderboard_delivery persist_delivery
      split: option.splits sum.splits prod.splits list.splits)

subsection \<open>The squad of three, evaluated\<close>

lemma round2_demo: "round2 (301 / 2) = 301 / 2"
  by (simp add: round2_def scaled2_def floor_numeral_div)

lemma round2_whale: "round2 (10 ^ 21) = 10 ^ 21"
  by (simp add: round2_def)

lemma demo_fresh_leaderboard:
  "fresh_leaderboard demo_env =
     Inr ([winner_entry bob (301 / 2), winner_entry alice 0, winner_entry carol 0],
          [ClosedPositionsRequest ''pm-bob'' None, ValueRequest ''pm-bob'',
           ClosedPositionsRequest ''pm-carol'' None, ValueRequest ''pm-carol''])"
proof -
  have a: "winner_member_pnl demo_market alice = (winner_entry alice 0, [])"
    by (simp add: winner_member_pnl_def alice_def)
  have b: "winner_member_pnl demo_market bob =
      (winner_entry bob (301 / 2), [ClosedPositionsRequest ''pm-bob'' None, ValueRequest ''pm-bob''])"
    by (simp add: winner_member_pnl_def bob_def demo_market_def ok_def bob_closed_def
        sum_realized_def value_or0_def num_or0_def round2_demo)
  have c: "winner_member_pnl demo_market carol =
      (winner_entry carol 0, [ClosedPositionsRequest ''pm-carol'' None, ValueRequest ''pm-carol''])"
    by (simp add: winner_member_pnl_def carol_def demo_market_def ok_def)
  have srt: "sort_by by_pnl_desc [winner_entry alice 0, winner_entry bob (301 / 2), winner_entry carol 0]
      = [winner_entry bob (301 / 2), winner_entry alice 0, winner_entry carol 0]"
    by (simp add: sort_by_def by_pnl_desc_def winner_entry_def)
  have "memberRows demo_env = Some [''0xA11CE'', ''0xB0B'', ''0xCA201'']"
    and "usersOf demo_env [''0xA11CE'', ''0xB0B'', ''0xCA201''] = Some [alice, bob, carol]"
    and "market demo_env = demo_market"
    by (simp_all add: demo_env_def)
  then show ?thesis
    by (simp add: fresh_leaderboard_def Let_def a b c srt)
qed

lemma demo_week: "weekNumber (tza demo_env) (time_week demo_env) = 44"
proof -
  have "YearFromTime 1762128001000 = 2025"
    by (simp add: YearFromTime_def msPerDay_def year_search.simps [of _ 2025] DayFromYear_def)
  then show ?thesis
    by (simp add: demo_env_def weekNumber_def msPerDay_def oneWeek_def DayFromYear_def)
qed

lemma demo_calculateWinner:
  "calculateWinner demo_env Map.empty tbl (Some 7) =
     persist_and_announce demo_env tbl 7 (winner_entry bob (301 / 2))
       [ClosedPositionsRequest ''pm-bob'' None, ValueRequest ''pm-bob'',
        ClosedPositionsRequest ''pm-carol'' None, ValueRequest ''pm-carol'']"
proof -
  have "membership demo_env"
    by (simp add: demo_env_def)
  then show ?thesis
    by (simp add: calculateWinner_def winner_leaderboard_def cache_get_def demo_fresh_leaderboard)
qed

lemma demo_flags:
  "\<not> findWinnerFails demo_env" "\<not> deleteWinnerFails demo_env" "\<not> insertWinnerFails demo_env"
  by (simp_all add: demo_env_def)

lemma whale_fresh_leaderboard:
  "fresh_leaderboard whale_env =
     Inr ([winner_entry bob (10 ^ 21), winner_entry alice 0, winner_entry carol 0],
          [ClosedPositionsRequest ''pm-bob'' None, ValueRequest ''pm-bob'',
           ClosedPositionsRequest ''pm-carol'' None, ValueRequest ''pm-carol''])"
proof -
  have a: "winner_member_pnl whale_market alice = (winner_entry alice 0, [])"
    by (simp add: winner_member_pnl_def alice_def)
  have b: "winner_member_pnl whale_market bob =
      (winner_entry bob (10 ^ 21), [ClosedPositionsRequest ''pm-bob'' None, ValueRequest ''pm-bob''])"
    by (simp add: winner_member_pnl_def bob_def whale_market_def ok_def
        sum_realized_def value_or0_def num_or0_def round2_whale [simplified])
  have c: "winner_member_pnl whale_market carol =
      (winner_entry carol 0, [ClosedPositionsRequest ''pm-carol'' None, ValueRequest ''pm-carol''])"
    by (simp add: winner_member_pnl_def carol_def whale_market_def ok_def)
  have srt: "sort_by by_pnl_desc [winner_entry alice 0, winner_entry bob (10 ^ 21), winner_entry carol 0]
      = [winner_entry bob (10 ^ 21), winner_entry alice 0, winner_entry carol 0]"
    by (simp add: sort_by_def by_pnl_desc_def winner_entry_def)
  have "memberRows whale_env = Some [''0xA11CE'', ''0xB0B'', ''0xCA201'']"
    and "usersOf whale_env [''0xA11CE'', ''0xB0B'', ''0xCA201''] = Some [alice, bob, carol]"
    and "market whale_env = whale_market"
    by (simp_all add: whale_env_def demo_env_def)
  then show ?thesis
    by (simp add: fresh_leaderboard_def Let_def a b c srt [simplified])
qed

lemma whale_week: "weekNumber (tza whale_env) (time_week whale_env) = 44"
  using demo_week by (simp add: whale_env_def)

lemma round2_100: "round2 100 = 100"
  by (simp add: round2_def scaled2_def floor_numeral_div)

lemma demo_window: "startTimestamp (time_window demo_env) ''weekly'' = Some 1761523200"
  by (simp add: startTimestamp_def demo_env_def msPerDay_def)

lemma demo_realized_all: "realizedPnl_of None bob_closed = 241 / 2"
  by (simp add: bob_closed_def realized_all num_or0_def)

lemma demo_realized_weekly: "realizedPnl_of (Some 1761523200) bob_closed = 100"
  by (simp add: bob_closed_def realized_windowed keep_position_def num_or0_def)

lemma demo_getLeaderboard_all:
  "lb_response (getLeaderboard demo_env Map.empty (Some 7) None) =
     Leaderboard [leaderboard_entry bob (301 / 2), leaderboard_entry alice 0, leaderboard_entry carol 0]"
proof -
  have st: "startTimestamp (time_window demo_env) ''all'' = None"
    by (simp add: startTimestamp_def)
  have a: "member_pnl demo_market ''all'' None alice = (leaderboard_entry alice 0, [])"
    by (simp add: member_pnl_def alice_def)
  have b: "fst (member_pnl demo_market ''all'' None bob) = leaderboard_entry bob (301 / 2)"
    by (simp add: member_pnl_def bob_def demo_market_def ok_def start_param_def cutoff_active_def
        demo_realized_all openPositionsValue_def value_or0_def num_or0_def round2_demo)
  have c: "fst (member_pnl demo_market ''all'' None carol) = leaderboard_entry carol 0"
    by (simp add: member_pnl_def carol_def demo_market_def ok_def start_param_def cutoff_active_def)
  have srt: "sort_by by_pnl_desc
       [leaderboard_entry alice 0, leaderboard_entry bob (301 / 2), leaderboard_entry carol 0]
      = [leaderboard_entry bob (301 / 2), leaderboard_entry alice 0, leaderboard_entry carol 0]"
    by (simp add: sort_by_def by_pnl_desc_def leaderboard_entry_def)
  have fr: "fresh_run demo_env Map.empty 7 (str_or None ''all'') [alice, bob, carol]"
    by (simp add: fresh_run_def members_loaded_def demo_env_def cache_get_def)
  have mk: "market demo_env = demo_market"
    by (simp add: demo_env_def)
  show ?thesis
    by (simp add: getLeaderboard_fresh [OF fr] member_results_def str_or_def st mk a b c srt)
qed

lemma demo_getLeaderboard_weekly:
  "lb_response (getLeaderboard demo_env Map.empty (Some 7) (Some ''weekly'')) =
     Leaderboard [leaderboard_entry bob 100, leaderboard_entry alice 0, leaderboard_entry carol 0]"
proof -
  let ?st = "Some 1761523200"
  have a: "member_pnl demo_market ''weekly'' ?st alice = (leaderboard_entry alice 0, [])"
    by (simp add: member_pnl_def alice_def)
  have b: "fst (member_pnl demo_market ''weekly'' ?st bob) = leaderboard_entry bob 100"
    by (simp add: member_pnl_def bob_def demo_market_def ok_def start_param_def cutoff_active_def
        demo_realized_weekly openPositionsValue_def round2_100)
  have c: "fst (member_pnl demo_market ''weekly'' ?st carol) = leaderboard_entry carol 0"
    by (simp add: member_pnl_def carol_def demo_market_def ok_def start_param_def cutoff_active_def)
  have srt: "sort_by by_pnl_desc
       [leaderboard_entry alice 0, leaderboard_entry bob 100, leaderboard_entry carol 0]
      = [leaderboard_entry bob 100, leaderboard_entry alice 0, leaderboard_entry carol 0]"
    by (simp add: sort_by_def by_pnl_desc_def leaderboard_entry_def)
  have fr: "fresh_run demo_env Map.empty 7 (str_or (Some ''weekly'') ''all'') [alice, bob, carol]"
    by (simp add: fresh_run_def members_loaded_def demo_env_def cache_get_def)
  have mk: "market demo_env = demo_market"
    by (simp add: demo_env_def)
  show ?thesis
    by (simp add: getLeaderboard_fresh [OF fr] member_results_def str_or_def demo_window mk a b c srt)
qed

lemma toFixed2_demo: "toFixed2 render (301 / 2) = ''150.50''"
  by (simp add: toFixed2_def scaled2_def floor_numeral_div show_nat.simps digit_char_def)

lemma show_int_44: "show_int 44 = ''44''"
  by (simp add: show_int_def show_nat.simps digit_char_def)

section \<open>The claims\<close>

subsection \<open>Composition of a member's total\<close>



subsection \<open>Window filter\<close>



subsection \<open>One stored winner per squad and week\<close>

text \<open>
  When the table holds at most one row per (squad, week) pair and neither the lookup nor
  the deletion fails, in this call and in the calls before it, a call that answers with
  the winner summary leaves exactly one row for the squad and the week, with the new
  winner's address and PnL, and leaves the rows of other pairs untouched; a row stored
  before is deleted before the insertion.
\<close>

lemma winner_replaced:
  assumes "one_per_week tbl0" and "\<forall>call \<in> set calls. reliable_store call"
    and "s = run \<lparr> pnlCache = c0, squad_winners = tbl0 \<rparr> calls"
    and "\<not> findWinnerFails e" and "\<not> deleteWinnerFails e"
    and "out = calculateWinner e (pnlCache s) (squad_winners s) (Some squadId)"
    and "cw_response out = WinnerSummary a n p wk"
    and "row = \<lparr> row_squadId = squadId, winnerAddress = a, row_week = wk, pnl = p \<rparr>"
  shows "filter (matching squadId wk) (cw_winners out) = [row] \<and>
     filter (\<lambda>r. \<not> matching squadId wk r) (cw_winners out) =
       filter (\<lambda>r. \<not> matching squadId wk r) (squad_winners s) \<and>
     one_per_week (cw_winners out) \<and>
     (filter (matching squadId wk) (squad_winners s) \<noteq> [] \<longrightarrow>
        cw_db_ops out = [FindWinner squadId wk, DeleteWinner squadId wk, InsertWinner row]) \<and>
     (filter (matching squadId wk) (squad_winners s) = [] \<longrightarrow>
        cw_db_ops out = [FindWinner squadId wk, InsertWinner row])"
proof -
  let ?tbl = "squad_winners s"
  have inv: "one_per_week ?tbl"
    using run_one_per_week [of "\<lparr> pnlCache = c0, squad_winners = tbl0 \<rparr>" calls] assms(1,2,3)
    by simp
  obtain winner reqs where out: "out = persist_and_announce e ?tbl squadId winner reqs"
    using calculateWinner_cases [of e "pnlCache s" ?tbl "Some squadId"] assms(6,7) by auto
  have ok: "\<not> insertWinnerFails e" and a: "a = entry_evmAddress winner"
    and p: "p = totalLivePnl winner" and wk: "wk = weekNumber (tza e) (time_week e)"
    using persist_success [of e ?tbl squadId winner reqs a n p wk] assms(7) out by simp_all
  have tbl: "cw_winners out = delete_matching ?tbl squadId wk @ [row]"
    using persist_table [OF inv assms(4,5), of squadId winner reqs] ok
    by (simp add: out Let_def a p wk assms(8))
  have ops: "cw_db_ops out =
      FindWinner squadId wk
      # (if filter (matching squadId wk) ?tbl \<noteq> [] then [DeleteWinner squadId wk] else [])
      @ [InsertWinner row]"
    using persist_ops [OF inv assms(4), of squadId winner reqs]
    by (simp add: out Let_def a p wk assms(8))
  have m: "matching squadId wk row"
    by (simp add: matching_def assms(8))
  have "filter (matching squadId wk) (cw_winners out) = [row]"
    using m by (simp add: tbl)
  moreover have "filter (\<lambda>r. \<not> matching squadId wk r) (cw_winners out) =
       filter (\<lambda>r. \<not> matching squadId wk r) ?tbl"
    using m by (simp add: tbl filter_not_delete_matching)
  moreover have "one_per_week (cw_winners out)"
    using persist_one_per_week [OF inv assms(4,5), of squadId winner reqs] by (simp add: out)
  ultimately show ?thesis
    using ops by simp
qed

lemma winner_replaced_example:
  "filter (matching 7 44)
     (cw_winners (calculateWinner demo_env Map.empty
        (squad_winners (run \<lparr> pnlCache = Map.empty, squad_winners = [] \<rparr>
                          [CalculateWinner demo_env (Some 7)]))
        (Some 7))) =
   [\<lparr> row_squadId = 7, winnerAddress = ''0xB0B'', row_week = 44, pnl = 301 / 2 \<rparr>] \<and>
   cw_db_ops (calculateWinner demo_env Map.empty
        (squad_winners (run \<lparr> pnlCache = Map.empty, squad_winners = [] \<rparr>
                          [CalculateWinner demo_env (Some 7)]))
        (Some 7)) =
   [FindWinner 7 44, DeleteWinner 7 44,
    InsertWinner \<lparr> row_squadId = 7, winnerAddress = ''0xB0B'', row_week = 44, pnl = 301 / 2 \<rparr>]"
proof -
  let ?s = "run \<lparr> pnlCache = Map.empty, squad_winners = [] \<rparr> [CalculateWinner demo_env (Some 7)]"
  let ?row = "\<lparr> row_squadId = 7, winnerAddress = ''0xB0B'', row_week = 44, pnl = 301 / 2 \<rparr>"
  have inv: "one_per_week []"
    by (simp add: one_per_week_def)
  have rel: "\<forall>call \<in> set [CalculateWinner demo_env (Some 7)]. reliable_store call"
    by (simp add: demo_flags)
  have cache: "pnlCache ?s = Map.empty"
    by (simp add: run_def)
  have before: "squad_winners ?s = [?row]"
    by (simp add: run_def demo_calculateWinner persist_and_announce_def Let_def demo_flags
        demo_week find_single_def winner_entry_def bob_def)
  have resp: "cw_response (calculateWinner demo_env (pnlCache ?s) (squad_winners ?s) (Some 7)) =
      WinnerSummary ''0xB0B'' ''bob'' (301 / 2) 44"
    by (simp add: cache demo_calculateWinner persist_and_announce_def Let_def demo_flags
        demo_week winner_entry_def bob_def str_or_def)
  have existed: "filter (matching 7 44) (squad_winners ?s) \<noteq> []"
    by (simp add: before matching_def)
  show ?thesis
    using winner_replaced [OF inv rel refl demo_flags(1,2) refl resp refl] existed
    by (simp add: cache)
qed

text \<open>
  Claim C3. After any sequential call of the winner route that answers with the winner
  summary, exactly one row is stored for the squad and the week. The handler breaks
  this: it reads the error of the insertion but neither that of the lookup nor that of
  the deletion, although its comments announce that the old winner is deleted and
  replaced. In the sequence below, from the empty table, a first call stores bob's
  row; during a second call the deletion fails; that call still answers with the
  summary, and two rows are stored for squad 7 and week 44.
\<close>

theorem winner_row_duplicated:
  "cw_response
     (calculateWinner (demo_env\<lparr>deleteWinnerFails := True\<rparr>) no_entries
        (squad_winners (run \<lparr> pnlCache = no_entries, squad_winners = [] \<rparr>
                          [CalculateWinner demo_env (Some 7)]))
        (Some 7)) =
     WinnerSummary ''0xB0B'' ''bob'' (301 / 2) 44 \<and>
   filter (matching 7 44)
     (cw_winners
        (calculateWinner (demo_env\<lparr>deleteWinnerFails := True\<rparr>) no_entries
           (squad_winners (run \<lparr> pnlCache = no_entries, squad_winners = [] \<rparr>
                             [CalculateWinner demo_env (Some 7)]))
           (Some 7))) =
     [\<lparr> row_squadId = 7, winnerAddress = ''0xB0B'', row_week = 44, pnl = 301 / 2 \<rparr>,
      \<lparr> row_squadId = 7, winnerAddress = ''0xB0B'', row_week = 44, pnl = 301 / 2 \<rparr>]"
proof -
  let ?e = "demo_env\<lparr>deleteWinnerFails := True\<rparr>"
  let ?s = "run \<lparr> pnlCache = no_entries, squad_winners = [] \<rparr> [CalculateWinner demo_env (Some 7)]"
  let ?row = "\<lparr> row_squadId = 7, winnerAddress = ''0xB0B'', row_week = 44, pnl = 301 / 2 \<rparr>"
  let ?reqs = "[ClosedPositionsRequest ''pm-bob'' None, ValueRequest ''pm-bob'',
        ClosedPositionsRequest ''pm-carol'' None, ValueRequest ''pm-carol'']"
  have before: "squad_winners ?s = [?row]"
    by (simp add: run_def no_entries_def demo_calculateWinner persist_and_announce_def Let_def
        demo_flags demo_week find_single_def winner_entry_def bob_def)
  have mb: "membership ?e"
    by (simp add: demo_env_def)
  have "fresh_leaderboard ?e = fresh_leaderboard demo_env"
    by (simp add: fresh_leaderboard_def split: option.splits)
  then have lb: "winner_leaderboard ?e no_entries 7 =
      Inr (winner_entry bob (301 / 2) # [winner_entry alice 0, winner_entry carol 0], ?reqs)"
    by (simp add: winner_leaderboard_def cache_get_def no_entries_def demo_fresh_leaderboard)
  have call: "calculateWinner ?e no_entries [?row] (Some 7) =
      persist_and_announce ?e [?row] 7 (winner_entry bob (301 / 2)) ?reqs"
    using calculateWinner_persist [OF mb lb] .
  have flags: "\<not> findWinnerFails ?e" "deleteWinnerFails ?e" "\<not> insertWinnerFails ?e"
    by (simp_all add: demo_env_def)
  have found: "find_single [?row] 7 44 = Some ?row"
    by (simp add: find_single_def matching_def)
  show ?thesis
    by (simp add: before call persist_and_announce_def Let_def flags demo_week found
        matching_def winner_entry_def bob_def str_or_def)
qed

subsection \<open>Week number\<close>

text \<open>
  Claim C4. The week number is the zero-based day of the year divided by 7, rounded
  down, plus 1 (\<open>week_by_day\<close>), and two calls on the same local day get the same
  number (\<open>week_same_day\<close>); it lies between 1 and 53 (\<open>week_range\<close>), and not always
  between 1 and 52 as the comment in the handler says: at noon UTC of 31 December 2025
  (day 364 of the year) the handler computes week 53.
\<close>

theorem week_number_reaches_53: "weekNumber 0 1767182400000 = 53"
proof -
  have "YearFromTime 1767182400000 = 2025"
    by (simp add: YearFromTime_def msPerDay_def year_search.simps [of 20453 2025] DayFromYear_def)
  then show ?thesis
    by (simp add: weekNumber_def msPerDay_def oneWeek_def DayFromYear_def)
qed

subsection \<open>Freshness of the cache\<close>

text \<open>
  Claim C5, as stated, fails on the miss branch: a query more than 30 seconds after the
  write, during which the lookup of the member list fails, is answered with the empty
  leaderboard, and nothing is written back: the key still misses afterwards.
\<close>

theorem cache_write_back_skipped:
  "1762127960000 + 30 * 1000 < time_lookup (demo_env\<lparr>memberRows := None\<rparr>) \<and>
   getLeaderboard (demo_env\<lparr>memberRows := None\<rparr>) stale_cache (Some 7) None =
     \<lparr> lb_response = Leaderboard [], lb_cache = stale_cache, lb_requests = [] \<rparr> \<and>
   cache_get stale_cache (time_store (demo_env\<lparr>memberRows := None\<rparr>)) (cacheKey 7 ''all'') = None"
proof -
  let ?e = "demo_env\<lparr>memberRows := None\<rparr>"
  have mb: "membership ?e" and tl: "time_lookup ?e = 1762128000000"
    and ts: "time_store ?e = 1762128000900" and rows: "memberRows ?e = None \<or> memberRows ?e = Some []"
    by (simp_all add: demo_env_def)
  have miss: "cache_get stale_cache (time_lookup ?e) (cacheKey 7 (str_or None ''all'')) = None"
    by (simp add: stale_cache_def cache_get_set tl str_or_def)
  have "cache_get stale_cache (time_store ?e) (cacheKey 7 ''all'') = None"
    by (simp add: stale_cache_def cache_get_set ts)
  then show ?thesis
    using getLeaderboard_no_members [OF mb miss rows] by (simp add: tl)
qed

text \<open>
  Claim C5, amended. Let an entry for the key of (squad, timeframe) be written at the
  instant \<open>written\<close>, and let any calls follow that are not leaderboard queries for that
  pair (queries for other pairs, which may write their own entries, and calls of the
  winner route). A query of a squad member for the pair that looks the cache up no
  later than 30 seconds after \<open>written\<close> is answered with the stored leaderboard, sends
  no request to the market-data service and leaves the cache as it is. A query that
  looks it up later misses. When the member and profile lookups succeed it computes the
  leaderboard once (the requests are those of one pass over the members), answers with
  it and stores it under the same key, replacing the old entry: from then on the key
  yields the new leaderboard until 30 seconds after the new write. When the member
  lookup fails or yields no member it answers with the empty leaderboard, and when the
  profile lookup fails with status 500, in both cases without any request and without
  writing the cache.
\<close>

theorem cache_ttl:
  assumes "membership e" and "timeframe = str_or q ''all''"
    and "k = cacheKey squadId timeframe"
    and "\<forall>call \<in> set calls. other_pair squadId timeframe call"
    and "c = pnlCache (run \<lparr> pnlCache = cache_set c0 written k v, squad_winners = tbl \<rparr> calls)"
    and "out = getLeaderboard e c (Some squadId) q"
  shows "(time_lookup e \<le> written + 30 * 1000 \<longrightarrow>
            out = \<lparr> lb_response = Leaderboard v, lb_cache = c, lb_requests = [] \<rparr>) \<and>
         (written + 30 * 1000 < time_lookup e \<longrightarrow>
            (members_loaded e us \<longrightarrow>
               (\<exists>lb. lb = sort_by by_pnl_desc (map fst (member_results e timeframe us)) \<and>
                  lb_response out = Leaderboard lb \<and>
                  lb_requests out = concat (map snd (member_results e timeframe us)) \<and>
                  lb_cache out = cache_set c (time_store e) k lb \<and>
                  (\<forall>now. cache_get (lb_cache out) now k =
                      (if time_store e + 30 * 1000 < now then None else Some lb)))) \<and>
            (memberRows e = None \<or> memberRows e = Some [] \<longrightarrow>
               out = \<lparr> lb_response = Leaderboard [], lb_cache = c, lb_requests = [] \<rparr>) \<and>
            (\<forall>rows. memberRows e = Some rows \<and> rows \<noteq> [] \<and> usersOf e rows = None \<longrightarrow>
               out = \<lparr> lb_response = Message 500 ''Failed to fetch users'', lb_cache = c,
                       lb_requests = [] \<rparr>))"
proof -
  have "c k = cache_set c0 written k v k"
    using run_other_pairs [OF assms(4), of "\<lparr> pnlCache = cache_set c0 written k v, squad_winners = tbl \<rparr>"]
    by (simp add: assms(3,5))
  then have get: "cache_get c now k = (if written + 30 * 1000 < now then None else Some v)" for now
    by (simp add: cache_get_def cache_set_def stdTTL_def)
  have key: "cacheKey squadId (str_or q ''all'') = k"
    by (simp add: assms(2,3))
  have hit: "time_lookup e \<le> written + 30 * 1000 \<longrightarrow>
      out = \<lparr> lb_response = Leaderboard v, lb_cache = c, lb_requests = [] \<rparr>"
  proof
    assume "time_lookup e \<le> written + 30 * 1000"
    then have "cache_get c (time_lookup e) (cacheKey squadId (str_or q ''all'')) = Some v"
      by (simp add: key get)
    then show "out = \<lparr> lb_response = Leaderboard v, lb_cache = c, lb_requests = [] \<rparr>"
      using getLeaderboard_hit [OF assms(1)] by (simp add: assms(6))
  qed
  have miss: "written + 30 * 1000 < time_lookup e \<Longrightarrow>
      cache_get c (time_lookup e) (cacheKey squadId (str_or q ''all'')) = None"
    by (simp add: key get)
  have computed: "members_loaded e us \<longrightarrow>
      (\<exists>lb. lb = sort_by by_pnl_desc (map fst (member_results e timeframe us)) \<and>
         lb_response out = Leaderboard lb \<and>
         lb_requests out = concat (map snd (member_results e timeframe us)) \<and>
         lb_cache out = cache_set c (time_store e) k lb \<and>
         (\<forall>now. cache_get (lb_cache out) now k =
             (if time_store e + 30 * 1000 < now then None else Some lb)))"
    if late: "written + 30 * 1000 < time_lookup e"
  proof
    assume "members_loaded e us"
    then have "fresh_run e c squadId (str_or q ''all'') us"
      using assms(1) miss [OF late] by (simp add: fresh_run_def)
    from getLeaderboard_fresh [OF this]
    show "\<exists>lb. lb = sort_by by_pnl_desc (map fst (member_results e timeframe us)) \<and>
         lb_response out = Leaderboard lb \<and>
         lb_requests out = concat (map snd (member_results e timeframe us)) \<and>
         lb_cache out = cache_set c (time_store e) k lb \<and>
         (\<forall>now. cache_get (lb_cache out) now k =
             (if time_store e + 30 * 1000 < now then None else Some lb))"
      using assms(2,3,6) by (simp add: cache_get_set)
  qed
  have empty: "memberRows e = None \<or> memberRows e = Some [] \<longrightarrow>
      out = \<lparr> lb_response = Leaderboard [], lb_cache = c, lb_requests = [] \<rparr>"
    if late: "written + 30 * 1000 < time_lookup e"
    using getLeaderboard_no_members [OF assms(1) miss [OF late]] by (simp add: assms(6))
  have failed: "\<forall>rows. memberRows e = Some rows \<and> rows \<noteq> [] \<and> usersOf e rows = None \<longrightarrow>
      out = \<lparr> lb_response = Message 500 ''Failed to fetch users'', lb_cache = c,
              lb_requests = [] \<rparr>"
    if late: "written + 30 * 1000 < time_lookup e"
    using getLeaderboard_no_users [OF assms(1) miss [OF late]] by (simp add: assms(6))
  show ?thesis
    using hit computed empty failed by blast
qed

theorem cache_ttl_witness:
  "getLeaderboard demo_env
     (pnlCache (run \<lparr> pnlCache = cache_set no_entries 1762127990000 (cacheKey 7 ''all'')
                                     [leaderboard_entry alice 0],
                      squad_winners = [] \<rparr>
                  [GetLeaderboard demo_env (Some 8) None, CalculateWinner demo_env (Some 7)]))
     (Some 7) None =
     \<lparr> lb_response = Leaderboard [leaderboard_entry alice 0],
       lb_cache =
         pnlCache (run \<lparr> pnlCache = cache_set no_entries 1762127990000 (cacheKey 7 ''all'')
                                        [leaderboard_entry alice 0],
                         squad_winners = [] \<rparr>
                     [GetLeaderboard demo_env (Some 8) None, CalculateWinner demo_env (Some 7)]),
       lb_requests = [] \<rparr> \<and>
   lb_requests (getLeaderboard demo_env
     (pnlCache (run \<lparr> pnlCache = stale_cache, squad_winners = [] \<rparr>
                  [GetLeaderboard demo_env (Some 8) None, CalculateWinner demo_env (Some 7)]))
     (Some 7) None) =
     [ClosedPositionsRequest ''pm-bob'' None, ValueRequest ''pm-bob'',
      ClosedPositionsRequest ''pm-carol'' None, ValueRequest ''pm-carol'']"
proof -
  let ?calls = "[GetLeaderboard demo_env (Some 8) None, CalculateWinner demo_env (Some 7)]"
  have mb: "membership demo_env"
    by (simp add: demo_env_def)
  have tf: "''all'' = str_or None ''all''"
    by (simp add: str_or_def)
  have other: "\<forall>call \<in> set ?calls. other_pair 7 ''all'' call"
    by simp
  have ld: "members_loaded demo_env [alice, bob, carol]"
    by (simp add: members_loaded_def demo_env_def)
  have early: "time_lookup demo_env \<le> 1762127990000 + 30 * 1000"
    by (simp add: demo_env_def)
  have late: "1762127960000 + 30 * 1000 < time_lookup demo_env"
    by (simp add: demo_env_def)
  have reqs: "concat (map snd (member_results demo_env ''all'' [alice, bob, carol])) =
     [ClosedPositionsRequest ''pm-bob'' None, ValueRequest ''pm-bob'',
      ClosedPositionsRequest ''pm-carol'' None, ValueRequest ''pm-carol'']"
    by (simp add: member_results_def member_pnl_def demo_env_def demo_market_def alice_def
        bob_def carol_def startTimestamp_def start_param_def cutoff_active_def ok_def Let_def)
  have "getLeaderboard demo_env
     (pnlCache (run \<lparr> pnlCache = cache_set no_entries 1762127990000 (cacheKey 7 ''all'')
                                     [leaderboard_entry alice 0],
                      squad_winners = [] \<rparr> ?calls))
     (Some 7) None =
     \<lparr> lb_response = Leaderboard [leaderboard_entry alice 0],
       lb_cache =
         pnlCache (run \<lparr> pnlCache = cache_set no_entries 1762127990000 (cacheKey 7 ''all'')
                                        [leaderboard_entry alice 0],
                         squad_winners = [] \<rparr> ?calls),
       lb_requests = [] \<rparr>"
    using cache_ttl [OF mb tf refl other refl refl, where ?c0.0 = no_entries
        and written = 1762127990000 and v = "[leaderboard_entry alice 0]" and tbl = "[]"
        and us = "[alice, bob, carol]"] early
    by simp
  moreover
  have "lb_requests (getLeaderboard demo_env
     (pnlCache (run \<lparr> pnlCache = stale_cache, squad_winners = [] \<rparr> ?calls))
     (Some 7) None) =
     concat (map snd (member_results demo_env ''all'' [alice, bob, carol]))"
    using cache_ttl [OF mb tf refl other refl refl, where ?c0.0 = no_entries
        and written = 1762127960000 and v = "[leaderboard_entry alice 0]" and tbl = "[]"
        and us = "[alice, bob, carol]"] late ld
    by (simp add: stale_cache_def)
  ultimately show ?thesis
    using reqs by simp
qed

subsection \<open>Members whose data cannot be fetched\<close>

text \<open>
  Claim C6. In a run of the leaderboard route that computes, a member who has no trading
  identity, or one of whose two fetches rejects or answers with a non-success status,
  still has an entry, with total 0; the response is the leaderboard (status 200) with
  one entry per member; the requests of the run are those of the members, in order, and
  a member without trading identity contributes none.
\<close>

theorem failed_member_scores_zero:
  assumes "fresh_run e c squadId timeframe us" and "timeframe = str_or q ''all''"
    and "st = startTimestamp (time_window e) timeframe"
    and "u \<in> set us" and "member_failed (market e) st u"
  shows "\<exists>lb. lb_response (getLeaderboard e c (Some squadId) q) = Leaderboard lb \<and>
     status_of (lb_response (getLeaderboard e c (Some squadId) q)) = 200 \<and>
     length lb = length us \<and>
     leaderboard_entry u 0 \<in> set lb \<and>
     lb_requests (getLeaderboard e c (Some squadId) q) =
       concat (map (\<lambda>v. snd (member_pnl (market e) timeframe st v)) us) \<and>
     (no_identity u \<longrightarrow> snd (member_pnl (market e) timeframe st u) = [])"
proof -
  let ?lb = "sort_by by_pnl_desc (map fst (member_results e timeframe us))"
  have out: "getLeaderboard e c (Some squadId) q =
     \<lparr> lb_response = Leaderboard ?lb,
       lb_cache = cache_set c (time_store e) (cacheKey squadId timeframe) ?lb,
       lb_requests = concat (map snd (member_results e timeframe us)) \<rparr>"
    using assms(1,2) getLeaderboard_fresh [of e c squadId q us] by simp
  have "fst (member_pnl (market e) timeframe st u) \<in> set ?lb"
    using assms(3,4) by (simp add: set_sort_by member_results_def)
  then have zero: "leaderboard_entry u 0 \<in> set ?lb"
    using member_pnl_failed [OF assms(5)] by simp
  have len: "length ?lb = length us"
    by (simp add: length_sort_by member_results_def)
  have reqs: "concat (map snd (member_results e timeframe us)) =
      concat (map (\<lambda>v. snd (member_pnl (market e) timeframe st v)) us)"
    using assms(3) by (simp add: member_results_def comp_def)
  have quiet: "no_identity u \<longrightarrow> snd (member_pnl (market e) timeframe st u) = []"
    by (simp add: member_pnl_no_identity)
  show ?thesis
    using out zero len reqs quiet by simp
qed

theorem failed_member_scores_zero_witness:
  "\<exists>lb. lb_response (getLeaderboard demo_env Map.empty (Some 7) None) = Leaderboard lb \<and>
     length lb = 3 \<and> leaderboard_entry alice 0 \<in> set lb \<and>
     snd (member_pnl demo_market ''all'' None alice) = []"
proof -
  have fr: "fresh_run demo_env Map.empty 7 ''all'' [alice, bob, carol]"
    by (simp add: fresh_run_def members_loaded_def demo_env_def cache_get_def)
  have tf: "''all'' = str_or None ''all''"
    by (simp add: str_or_def)
  have st: "None = startTimestamp (time_window demo_env) ''all''"
    by (simp add: startTimestamp_def)
  have mem: "alice \<in> set [alice, bob, carol]"
    by simp
  have failed: "member_failed (market demo_env) None alice"
    by (simp add: member_failed_def alice_def)
  have noid: "no_identity alice"
    by (simp add: no_identity_def alice_def)
  have mk: "market demo_env = demo_market"
    by (simp add: demo_env_def)
  show ?thesis
    using failed_member_scores_zero [OF fr tf st mem failed] noid mk
    by auto
qed

subsection \<open>Order of the leaderboard\<close>

text \<open>
  Claim C7. The leaderboard computed by the query route and the one computed afresh by
  the winner route are in descending order of total, and the entries of any one total
  appear in the order of the members they were computed from (the sort is stable).
\<close>

theorem leaderboard_sorted_stable:
  assumes "members_loaded e us"
  shows "(membership e \<longrightarrow> cache_get c (time_lookup e) (cacheKey squadId (str_or q ''all'')) = None \<longrightarrow>
           (\<exists>lb. lb_response (getLeaderboard e c (Some squadId) q) = Leaderboard lb \<and>
                 pnl_descending lb \<and>
                 (\<forall>k. with_total k lb =
                        with_total k (map fst (member_results e (str_or q ''all'') us))))) \<and>
         (\<exists>lb reqs. fresh_leaderboard e = Inr (lb, reqs) \<and> pnl_descending lb \<and>
                 (\<forall>k. with_total k lb =
                        with_total k (map (\<lambda>u. fst (winner_member_pnl (market e) u)) us)))"
proof (intro conjI impI)
  assume "membership e"
    and "cache_get c (time_lookup e) (cacheKey squadId (str_or q ''all'')) = None"
  with assms have "fresh_run e c squadId (str_or q ''all'') us"
    by (simp add: fresh_run_def)
  then have "lb_response (getLeaderboard e c (Some squadId) q) =
      Leaderboard (sort_by by_pnl_desc (map fst (member_results e (str_or q ''all'') us)))"
    by (simp add: getLeaderboard_fresh)
  then show "\<exists>lb. lb_response (getLeaderboard e c (Some squadId) q) = Leaderboard lb \<and>
                 pnl_descending lb \<and>
                 (\<forall>k. with_total k lb =
                        with_total k (map fst (member_results e (str_or q ''all'') us)))"
    by (simp add: descending_sort_by with_total_sort_by)
next
  show "\<exists>lb reqs. fresh_leaderboard e = Inr (lb, reqs) \<and> pnl_descending lb \<and>
                 (\<forall>k. with_total k lb =
                        with_total k (map (\<lambda>u. fst (winner_member_pnl (market e) u)) us))"
    using fresh_leaderboard_loaded [OF assms]
    by (simp add: descending_sort_by with_total_sort_by)
qed

theorem leaderboard_sorted_stable_witness:
  "(\<exists>lb. lb_response (getLeaderboard demo_env Map.empty (Some 7) None) = Leaderboard lb \<and>
         pnl_descending lb \<and>
         (\<forall>k. with_total k lb =
                with_total k (map fst (member_results demo_env ''all'' [alice, bob, carol])))) \<and>
   (\<exists>lb reqs. fresh_leaderboard demo_env = Inr (lb, reqs) \<and> pnl_descending lb \<and>
         (\<forall>k. with_total k lb =
                with_total k (map (\<lambda>u. fst (winner_member_pnl (market demo_env) u)) [alice, bob, carol])))"
proof -
  have ld: "members_loaded demo_env [alice, bob, carol]"
    by (simp add: members_loaded_def demo_env_def)
  have mb: "membership demo_env"
    by (simp add: demo_env_def)
  have miss: "cache_get Map.empty (time_lookup demo_env) (cacheKey 7 (str_or None ''all'')) = None"
    by (simp add: cache_get_def)
  show ?thesis
    using leaderboard_sorted_stable [OF ld, of Map.empty 7 None] mb miss
    by (simp add: str_or_def)
qed

subsection \<open>Persistence and announcement\<close>

text \<open>
  Claim C8, as stated, fails for the rendering of the PnL: a winner whose PnL is
  \<open>10^21\<close> is announced with the amount in exponent notation, which has no point and
  no two decimals.
\<close>

theorem announcement_in_exponent_form:
  "cw_emitted (calculateWinner whale_env no_entries [] (Some 7)) =
     [\<lparr> ann_squadId = 7,
        ann_message = trophy @ '' Week 44 MVP: bob with +$1e+21 PnL! Congratulations! '' @ party \<rparr>] \<and>
   \<not> two_places (pnlDisplay (numberToString whale_env) (10 ^ 21))"
proof -
  let ?reqs = "[ClosedPositionsRequest ''pm-bob'' None, ValueRequest ''pm-bob'',
        ClosedPositionsRequest ''pm-carol'' None, ValueRequest ''pm-carol'']"
  have mb: "membership whale_env" and works: "\<not> insertWinnerFails whale_env"
    and render: "numberToString whale_env = toString_1e21"
    by (simp_all add: whale_env_def demo_env_def)
  have lb: "winner_leaderboard whale_env no_entries 7 =
      Inr (winner_entry bob (10 ^ 21) # [winner_entry alice 0, winner_entry carol 0], ?reqs)"
    by (simp add: winner_leaderboard_def cache_get_def no_entries_def whale_fresh_leaderboard)
  have disp: "pnlDisplay toString_1e21 (10 ^ 21) = ''+$1e+21''"
    by (simp add: pnlDisplay_def toFixed2_def toString_1e21_def)
  have "cw_emitted (calculateWinner whale_env no_entries [] (Some 7)) =
     [\<lparr> ann_squadId = 7,
        ann_message = trophy @ '' Week 44 MVP: bob with +$1e+21 PnL! Congratulations! '' @ party \<rparr>]"
    by (simp add: calculateWinner_persist [OF mb lb] persist_and_announce_def Let_def works
        render whale_week winnerMessage_def winner_entry_def bob_def str_or_def
        disp [simplified] show_int_44)
  moreover have "\<not> two_places (pnlDisplay (numberToString whale_env) (10 ^ 21))"
    by (simp add: render disp [simplified] two_places_def)
  ultimately show ?thesis by simp
qed

text \<open>
  Claim C8, amended. In a call of the winner route that reaches the persistence step
  (the caller is a member and the leaderboard is not empty): when the insertion fails
  the response is the server error 500 and nothing is emitted; when it succeeds
  exactly one announcement is emitted, for the squad, whose message holds the week
  number, the winner's display name and the PnL, and the response is the winner
  summary. A PnL of absolute value below \<open>10^21\<close> is rendered as a sign, \<open>+\<close> or \<open>-\<close>,
  the dollar sign, the integral digits, a point and two digits; from \<open>10^21\<close> on it is
  rendered as the sign, the dollar sign and the absolute value in the notation of
  \<^verbatim>\<open>String\<close>. Whether the announcement is delivered does not change the outcome.
\<close>

theorem persistence_and_announcement:
  assumes "membership e" and "winner_leaderboard e c squadId = Inr (winner # rest, reqs)"
    and "out = calculateWinner e c tbl (Some squadId)"
    and "wk = weekNumber (tza e) (time_week e)"
  shows "(insertWinnerFails e \<longrightarrow>
            cw_response out = Error 500 ''Failed to save winner'' \<and>
            status_of (cw_response out) = 500 \<and> cw_emitted out = []) \<and>
         (\<not> insertWinnerFails e \<longrightarrow>
            cw_emitted out =
              [\<lparr> ann_squadId = squadId,
                 ann_message =
                   trophy @ '' Week '' @ show_int wk @ '' MVP: '' @ entry_username winner
                   @ '' with '' @ pnlDisplay (numberToString e) (totalLivePnl winner)
                   @ '' PnL! Congratulations! '' @ party \<rparr>] \<and>
            cw_response out =
              WinnerSummary (entry_evmAddress winner) (entry_username winner)
                (totalLivePnl winner) wk) \<and>
         (\<bar>totalLivePnl winner\<bar> < 10 ^ 21 \<longrightarrow>
            pnlDisplay (numberToString e) (totalLivePnl winner) =
              (if 0 \<le> totalLivePnl winner then CHR ''+'' else CHR ''-'') # CHR ''$''
              # show_nat (scaled2 (totalLivePnl winner) div 100)
              @ [CHR ''.'', digit_char (scaled2 (totalLivePnl winner) div 10 mod 10),
                 digit_char (scaled2 (totalLivePnl winner) mod 10)] \<and>
            two_places (pnlDisplay (numberToString e) (totalLivePnl winner))) \<and>
         (10 ^ 21 \<le> \<bar>totalLivePnl winner\<bar> \<longrightarrow>
            pnlDisplay (numberToString e) (totalLivePnl winner) =
              (if 0 \<le> totalLivePnl winner then CHR ''+'' else CHR ''-'') # CHR ''$''
              # numberToString e \<bar>totalLivePnl winner\<bar>) \<and>
         calculateWinner (e\<lparr>announcementDelivered := b\<rparr>) c tbl (Some squadId) = out"
proof -
  have out: "out = persist_and_announce e tbl squadId winner reqs"
    using calculateWinner_persist [OF assms(1,2)] assms(3) by simp
  have "insertWinnerFails e \<longrightarrow>
            cw_response out = Error 500 ''Failed to save winner'' \<and>
            status_of (cw_response out) = 500 \<and> cw_emitted out = []"
    by (simp add: out persist_and_announce_def Let_def)
  moreover have "\<not> insertWinnerFails e \<longrightarrow>
            cw_emitted out =
              [\<lparr> ann_squadId = squadId,
                 ann_message =
                   trophy @ '' Week '' @ show_int wk @ '' MVP: '' @ entry_username winner
                   @ '' with '' @ pnlDisplay (numberToString e) (totalLivePnl winner)
                   @ '' PnL! Congratulations! '' @ party \<rparr>] \<and>
            cw_response out =
              WinnerSummary (entry_evmAddress winner) (entry_username winner)
                (totalLivePnl winner) wk"
    by (simp add: out persist_and_announce_def Let_def winnerMessage_def assms(4))
  moreover have "\<bar>totalLivePnl winner\<bar> < 10 ^ 21 \<longrightarrow>
            pnlDisplay (numberToString e) (totalLivePnl winner) =
              (if 0 \<le> totalLivePnl winner then CHR ''+'' else CHR ''-'') # CHR ''$''
              # show_nat (scaled2 (totalLivePnl winner) div 100)
              @ [CHR ''.'', digit_char (scaled2 (totalLivePnl winner) div 10 mod 10),
                 digit_char (scaled2 (totalLivePnl winner) mod 10)] \<and>
            two_places (pnlDisplay (numberToString e) (totalLivePnl winner))"
    using pnlDisplay_format [of "totalLivePnl winner" "numberToString e"]
      pnlDisplay_two_places [of "totalLivePnl winner" "numberToString e"] by blast
  moreover have "10 ^ 21 \<le> \<bar>totalLivePnl winner\<bar> \<longrightarrow>
            pnlDisplay (numberToString e) (totalLivePnl winner) =
              (if 0 \<le> totalLivePnl winner then CHR ''+'' else CHR ''-'') # CHR ''$''
              # numberToString e \<bar>totalLivePnl winner\<bar>"
    using pnlDisplay_large [of "totalLivePnl winner" "numberToString e"] by blast
  moreover have "calculateWinner (e\<lparr>announcementDelivered := b\<rparr>) c tbl (Some squadId) = out"
    by (simp add: delivery_irrelevant assms(3))
  ultimately show ?thesis by blast
qed

theorem persistence_and_announcement_witness:
  "cw_emitted (calculateWinner demo_env no_entries [] (Some 7)) =
     [\<lparr> ann_squadId = 7,
        ann_message = trophy @ '' Week 44 MVP: bob with +$150.50 PnL! Congratulations! '' @ party \<rparr>] \<and>
   cw_response (calculateWinner demo_env no_entries [] (Some 7)) =
     WinnerSummary ''0xB0B'' ''bob'' (301 / 2) 44 \<and>
   two_places (pnlDisplay (numberToString demo_env) (301 / 2)) \<and>
   cw_response (calculateWinner (demo_env\<lparr>insertWinnerFails := True\<rparr>) no_entries [] (Some 7)) =
     Error 500 ''Failed to save winner'' \<and>
   cw_emitted (calculateWinner (demo_env\<lparr>insertWinnerFails := True\<rparr>) no_entries [] (Some 7)) = [] \<and>
   pnlDisplay (numberToString whale_env) (10 ^ 21) = ''+$'' @ numberToString whale_env (10 ^ 21)"
proof -
  let ?failing = "demo_env\<lparr>insertWinnerFails := True\<rparr>"
  let ?reqs = "[ClosedPositionsRequest ''pm-bob'' None, ValueRequest ''pm-bob'',
        ClosedPositionsRequest ''pm-carol'' None, ValueRequest ''pm-carol'']"
  have mb: "membership demo_env" and mb': "membership ?failing" and mbw: "membership whale_env"
    by (simp_all add: whale_env_def demo_env_def)
  have lb: "winner_leaderboard demo_env no_entries 7 =
      Inr (winner_entry bob (301 / 2) # [winner_entry alice 0, winner_entry carol 0], ?reqs)"
    by (simp add: winner_leaderboard_def cache_get_def no_entries_def demo_fresh_leaderboard)
  have "fresh_leaderboard ?failing = fresh_leaderboard demo_env"
    by (simp add: fresh_leaderboard_def split: option.splits)
  then have lb': "winner_leaderboard ?failing no_entries 7 =
      Inr (winner_entry bob (301 / 2) # [winner_entry alice 0, winner_entry carol 0], ?reqs)"
    by (simp add: winner_leaderboard_def cache_get_def no_entries_def demo_fresh_leaderboard)
  have lbw: "winner_leaderboard whale_env no_entries 7 =
      Inr (winner_entry bob (10 ^ 21) # [winner_entry alice 0, winner_entry carol 0], ?reqs)"
    by (simp add: winner_leaderboard_def cache_get_def no_entries_def whale_fresh_leaderboard)
  have wk: "44 = weekNumber (tza demo_env) (time_week demo_env)"
    by (simp add: demo_week)
  have wk': "44 = weekNumber (tza ?failing) (time_week ?failing)"
    by (simp add: demo_week)
  have wkw: "44 = weekNumber (tza whale_env) (time_week whale_env)"
    by (simp add: whale_week)
  have fails: "insertWinnerFails ?failing" and works: "\<not> insertWinnerFails demo_env"
    by (simp_all add: demo_env_def)
  have disp: "pnlDisplay (numberToString demo_env) (301 / 2) = ''+$150.50''"
    by (simp add: pnlDisplay_def toFixed2_demo)
  have small: "\<bar>totalLivePnl (winner_entry bob (301 / 2))\<bar> < 10 ^ 21"
    by (simp add: winner_entry_def)
  have large: "10 ^ 21 \<le> \<bar>totalLivePnl (winner_entry bob (10 ^ 21))\<bar>"
    by (simp add: winner_entry_def)
  have "pnlDisplay (numberToString whale_env) (10 ^ 21) = ''+$'' @ numberToString whale_env (10 ^ 21)"
    using persistence_and_announcement [OF mbw lbw refl wkw, of "[]" True] large
    by (simp add: winner_entry_def)
  moreover have "two_places (pnlDisplay (numberToString demo_env) (301 / 2))"
  proof -
    have "two_places (pnlDisplay (numberToString demo_env)
        (totalLivePnl (winner_entry bob (301 / 2))))"
      using persistence_and_announcement [OF mb lb refl wk, of "[]" True] small by blast
    then show ?thesis
      by (simp add: winner_entry_def)
  qed
  moreover have "cw_emitted (calculateWinner demo_env no_entries [] (Some 7)) =
     [\<lparr> ann_squadId = 7,
        ann_message = trophy @ '' Week 44 MVP: bob with +$150.50 PnL! Congratulations! '' @ party \<rparr>] \<and>
   cw_response (calculateWinner demo_env no_entries [] (Some 7)) =
     WinnerSummary ''0xB0B'' ''bob'' (301 / 2) 44 \<and>
   cw_response (calculateWinner ?failing no_entries [] (Some 7)) =
     Error 500 ''Failed to save winner'' \<and>
   cw_emitted (calculateWinner ?failing no_entries [] (Some 7)) = []"
    using persistence_and_announcement [OF mb lb refl wk, of "[]" True]
          persistence_and_announcement [OF mb' lb' refl wk', of "[]" True]
          fails works
    by (simp add: winner_entry_def bob_def str_or_def disp show_int_44)
  ultimately show ?thesis by simp
qed

subsection \<open>The two shapes of cache key\<close>

text \<open>
  Claim C9. A key of the leaderboard route never equals a key of the winner route. The
  leaderboard route leaves the cache as it is or writes one entry, under its own key
  with a non-empty timeframe; the winner route never writes. Hence, from the empty
  cache of a fresh process and after any sequence of calls of the two routes, the
  lookup of the winner route misses at any time, and the winner route computes its
  leaderboard afresh.
\<close>

theorem winner_lookup_always_misses:
  "cacheKey squadId timeframe \<noteq> winnerKey squadId' \<and>
   (lb_cache (getLeaderboard e c sid q) = c \<or>
    (\<exists>written lb. sid = Some written \<and> str_or q ''all'' \<noteq> [] \<and>
       lb_cache (getLeaderboard e c sid q) =
         cache_set c (time_store e) (cacheKey written (str_or q ''all'')) lb)) \<and>
   pnlCache (step st (CalculateWinner e' sid')) = pnlCache st \<and>
   cache_get (pnlCache (run \<lparr> pnlCache = Map.empty, squad_winners = tbl \<rparr> calls)) now
     (winnerKey squadId') = None \<and>
   winner_leaderboard e' (pnlCache (run \<lparr> pnlCache = Map.empty, squad_winners = tbl \<rparr> calls))
     squadId' = fresh_leaderboard e'"
proof -
  let ?c = "pnlCache (run \<lparr> pnlCache = Map.empty, squad_winners = tbl \<rparr> calls)"
  have "\<forall>s. ?c (winnerKey s) = None"
    by (rule run_keeps_winner_keys) simp
  then have miss: "\<And>t. cache_get ?c t (winnerKey squadId') = None"
    by (simp add: cache_get_def)
  have ne: "str_or q ''all'' \<noteq> []"
    by (rule str_or_nonempty) simp
  show ?thesis
    using keys_differ [of squadId timeframe squadId'] getLeaderboard_writes [of e c sid q] ne miss
    by (auto simp: winner_leaderboard_def)
qed

theorem winner_lookup_always_misses_witness:
  "cache_get
     (pnlCache (run \<lparr> pnlCache = Map.empty, squad_winners = [] \<rparr>
                  [GetLeaderboard demo_env (Some 7) None, CalculateWinner demo_env (Some 7)]))
     1762128001000 (winnerKey 7) = None \<and>
   winner_leaderboard demo_env
     (pnlCache (run \<lparr> pnlCache = Map.empty, squad_winners = [] \<rparr>
                  [GetLeaderboard demo_env (Some 7) None, CalculateWinner demo_env (Some 7)]))
     7 = fresh_leaderboard demo_env"
  using winner_lookup_always_misses [of 7 "''all''" 7 demo_env Map.empty "Some 7" None
      "\<lparr> pnlCache = Map.empty, squad_winners = [] \<rparr>" demo_env "Some 7" "[]"
      "[GetLeaderboard demo_env (Some 7) None, CalculateWinner demo_env (Some 7)]" 1762128001000]
  by simp

subsection \<open>A failed member lookup\<close>

text \<open>
  Claim C10. The leaderboard route answers a failed lookup of the member list exactly
  as it answers an empty member list; on a cache miss both yield the empty leaderboard
  with status 200, not an internal error, and leave the cache as it is.
\<close>

theorem member_lookup_error_as_empty:
  "getLeaderboard (e\<lparr>memberRows := None\<rparr>) c sid q =
   getLeaderboard (e\<lparr>memberRows := Some []\<rparr>) c sid q \<and>
   (membership e \<longrightarrow> cache_get c (time_lookup e) (cacheKey squadId (str_or q ''all'')) = None \<longrightarrow>
      getLeaderboard (e\<lparr>memberRows := None\<rparr>) c (Some squadId) q =
        \<lparr> lb_response = Leaderboard [], lb_cache = c, lb_requests = [] \<rparr> \<and>
      status_of (lb_response (getLeaderboard (e\<lparr>memberRows := None\<rparr>) c (Some squadId) q)) = 200)"
  by (simp add: getLeaderboard_def Let_def split: option.splits)

theorem member_lookup_error_as_empty_witness:
  "getLeaderboard (demo_env\<lparr>memberRows := None\<rparr>) Map.empty (Some 7) None =
     \<lparr> lb_response = Leaderboard [], lb_cache = Map.empty, lb_requests = [] \<rparr> \<and>
   getLeaderboard (demo_env\<lparr>memberRows := Some []\<rparr>) Map.empty (Some 7) None =
     \<lparr> lb_response = Leaderboard [], lb_cache = Map.empty, lb_requests = [] \<rparr>"
proof -
  have mb: "membership demo_env"
    by (simp add: demo_env_def)
  have miss: "cache_get Map.empty (time_lookup demo_env) (cacheKey 7 (str_or None ''all'')) = None"
    by (simp add: cache_get_def)
  show ?thesis
    using member_lookup_error_as_empty [of demo_env Map.empty "Some 7" None 7] mb miss
    by metis
qed

end
